theory Spec2Isabelle
  imports Main "HOL-Library.Word"
begin

section \<open>Python values: characters, strings, exceptions\<close>

text \<open>
  A Python \<open>str\<close> is a sequence of Unicode code points; a character is modelled by its
  code point (\<open>ord\<close>), a string by the list of its code points. Literals of the source
  are written as HOL strings and converted with \<open>str\<close>.
\<close>

type_synonym pychar = nat
type_synonym pystr = "nat list"

definition str :: "string \<Rightarrow> pystr" where
  "str s = map of_char s"

datatype py_error = IndexError | OSError | ValueError | RuntimeError | UnicodeDecodeError

text \<open>
  \<open>str.isupper\<close> and \<open>str.lower\<close> on one character. The source applies them only to
  entries of \<open>LATIN_MAP\<close> and to elements of \<open>result_chars\<close>, which are ASCII letters,
  digits and spaces (lemmas \<open>LATIN_MAP_letters\<close> and \<open>emit_loop_safe\<close> below); on these
  they are the range \<open>A\<close>..\<open>Z\<close> and the shift by 32.
\<close>

definition isupper :: "pychar \<Rightarrow> bool" where
  "isupper c = (65 \<le> c \<and> c \<le> 90)"

definition lower :: "pychar \<Rightarrow> pychar" where
  "lower c = (if isupper c then c + 32 else c)"

section \<open>The transliteration table\<close>

definition LATIN_MAP :: "string option list" where
  "LATIN_MAP = [
    Some ''A'', Some ''A'', Some ''A'', Some ''A'', Some ''A'', Some ''A'', Some ''AE'', Some ''C'',
    Some ''E'', Some ''E'', Some ''E'', Some ''E'', Some ''I'', Some ''I'', Some ''I'', Some ''I'',
    Some ''DH'', Some ''N'', Some ''O'', Some ''O'', Some ''O'', Some ''O'', Some ''O'', None,
    Some ''O'', Some ''U'', Some ''U'', Some ''U'', Some ''U'', Some ''Y'', Some ''th'', Some ''ss'',
    Some ''a'', Some ''a'', Some ''a'', Some ''a'', Some ''a'', Some ''a'', Some ''ae'', Some ''c'',
    Some ''e'', Some ''e'', Some ''e'', Some ''e'', Some ''i'', Some ''i'', Some ''i'', Some ''i'',
    Some ''dh'', Some ''n'', Some ''o'', Some ''o'', Some ''o'', Some ''o'', Some ''o'', None,
    Some ''o'', Some ''u'', Some ''u'', Some ''u'', Some ''u'', Some ''y'', Some ''th'', Some ''y'',
    Some ''A'', Some ''a'', Some ''A'', Some ''a'', Some ''A'', Some ''a'', Some ''C'', Some ''c'',
    Some ''C'', Some ''c'', Some ''C'', Some ''c'', Some ''C'', Some ''c'', Some ''D'', Some ''d'',
    Some ''D'', Some ''d'', Some ''E'', Some ''e'', Some ''E'', Some ''e'', Some ''E'', Some ''e'',
    Some ''E'', Some ''e'', Some ''E'', Some ''e'', Some ''G'', Some ''g'', Some ''G'', Some ''g'',
    Some ''G'', Some ''g'', Some ''G'', Some ''g'', Some ''H'', Some ''h'', Some ''H'', Some ''h'',
    Some ''I'', Some ''i'', Some ''I'', Some ''i'', Some ''I'', Some ''i'', Some ''I'', Some ''i'',
    Some ''I'', Some ''i'', Some ''IJ'', Some ''ij'', Some ''J'', Some ''j'', Some ''K'', Some ''k'',
    Some ''k'', Some ''L'', Some ''l'', Some ''L'', Some ''l'', Some ''L'', Some ''l'', Some ''L'',
    Some ''l'', Some ''L'', Some ''l'', Some ''N'', Some ''n'', Some ''N'', Some ''n'', Some ''N'',
    Some ''n'', Some ''n'', Some ''N'', Some ''n'', Some ''O'', Some ''o'', Some ''O'', Some ''o'',
    Some ''O'', Some ''o'', Some ''OE'', Some ''oe'', Some ''R'', Some ''r'', Some ''R'', Some ''r'',
    Some ''R'', Some ''r'', Some ''S'', Some ''s'', Some ''S'', Some ''s'', Some ''S'', Some ''s'',
    Some ''S'', Some ''s'', Some ''T'', Some ''t'', Some ''T'', Some ''t'', Some ''T'', Some ''t'',
    Some ''U'', Some ''u'', Some ''U'', Some ''u'', Some ''U'', Some ''u'', Some ''U'', Some ''u'',
    Some ''U'', Some ''u'', Some ''U'', Some ''u'', Some ''W'', Some ''w'', Some ''Y'', Some ''y'',
    Some ''Y'', Some ''Z'', Some ''z'', Some ''Z'', Some ''z'', Some ''Z'', Some ''z'', Some ''s''
  ]"

definition LATIN_MAP_BEGIN :: nat where
  "LATIN_MAP_BEGIN = 0xC0"

definition LATIN_MAP_END :: nat where
  "LATIN_MAP_END = LATIN_MAP_BEGIN + length LATIN_MAP"

section \<open>sanitize_name\<close>

text \<open>The first branch of the loop body: digits, the space, ASCII letters.\<close>

definition passes :: "pychar \<Rightarrow> bool" where
  "passes ch = ((48 \<le> ch \<and> ch \<le> 57) \<or> ch = 32 \<or> (65 \<le> ch \<and> ch \<le> 90) \<or> (97 \<le> ch \<and> ch \<le> 122))"

text \<open>
  The first loop, over the characters of \<open>value\<close>, with the state
  \<open>(result_chars, guessed_indexes)\<close>: \<open>emit_step\<close> is its body. A table entry \<open>None\<close>
  or empty is falsy and appends nothing.
\<close>

definition emit_step :: "pychar \<Rightarrow> pystr \<times> nat list \<Rightarrow> pystr \<times> nat list" where
  "emit_step ch st =
     (case st of (result_chars, guessed_indexes) \<Rightarrow>
        if passes ch then (result_chars @ [ch], guessed_indexes)
        else if ch = 9 then (result_chars @ [32], guessed_indexes)
        else if LATIN_MAP_BEGIN \<le> ch \<and> ch < LATIN_MAP_END then
          (case LATIN_MAP ! (ch - LATIN_MAP_BEGIN) of
             None \<Rightarrow> (result_chars, guessed_indexes)
           | Some mapped \<Rightarrow>
               if mapped = [] then (result_chars, guessed_indexes)
               else
                 (result_chars @ str mapped,
                  if length mapped \<ge> 2 \<and> isupper (str mapped ! 1)
                  then guessed_indexes @ [length (result_chars @ str mapped) - 1]
                  else guessed_indexes))
        else (result_chars, guessed_indexes))"

fun emit_loop :: "pystr \<Rightarrow> pystr \<times> nat list \<Rightarrow> pystr \<times> nat list" where
  "emit_loop [] st = st"
| "emit_loop (ch # rest) st = emit_loop rest (emit_step ch st)"

text \<open>
  The second loop, over \<open>guessed_indexes\<close>. \<open>len(result_chars) - 1\<close> is a Python integer
  (it is \<open>-1\<close> on the empty list), and reading \<open>result_chars[idx + 1]\<close> out of range raises
  \<open>IndexError\<close>.
\<close>

fun patch_loop :: "nat list \<Rightarrow> pystr \<Rightarrow> py_error + pystr" where
  "patch_loop [] result_chars = Inr result_chars"
| "patch_loop (idx # rest) result_chars =
     (if int idx \<noteq> int (length result_chars) - 1 then
        (if idx + 1 < length result_chars then
           (if \<not> isupper (result_chars ! (idx + 1))
            then patch_loop rest (result_chars[idx := lower (result_chars ! idx)])
            else patch_loop rest result_chars)
         else Inl IndexError)
      else patch_loop rest result_chars)"

definition sanitize_name :: "pystr \<Rightarrow> py_error + pystr" where
  "sanitize_name v =
     (if v = str ''( )'' then Inr (str ''Untitled'')
      else (case emit_loop v ([], []) of
              (result_chars, guessed_indexes) \<Rightarrow> patch_loop guessed_indexes result_chars))"

section \<open>Text decoding\<close>

text \<open>
  The bytes of a file are 8-bit words. The codecs are those of the Python runtime, decoding
  with \<open>errors="strict"\<close>; \<open>None\<close> stands for \<open>UnicodeDecodeError\<close>, the only exception
  such a decode raises. They work on the values of the bytes.
\<close>

type_synonym byte = "8 word"

definition cont :: "nat \<Rightarrow> bool" where
  "cont b = (0x80 \<le> b \<and> b \<le> 0xBF)"

definition second3 :: "nat \<Rightarrow> nat \<Rightarrow> bool" where
  "second3 b0 b1 =
     (if b0 = 0xE0 then 0xA0 \<le> b1 \<and> b1 \<le> 0xBF
      else if b0 = 0xED then 0x80 \<le> b1 \<and> b1 \<le> 0x9F
      else cont b1)"

definition second4 :: "nat \<Rightarrow> nat \<Rightarrow> bool" where
  "second4 b0 b1 =
     (if b0 = 0xF0 then 0x90 \<le> b1 \<and> b1 \<le> 0xBF
      else if b0 = 0xF4 then 0x80 \<le> b1 \<and> b1 \<le> 0x8F
      else cont b1)"

text \<open>
  One step of the UTF-8 decoder on a non-empty input: the code point and the number of
  bytes it takes, or \<open>None\<close> and the length of the ill-formed prefix (which lossy
  decoding replaces by one U+FFFD).
\<close>

fun utf8_step :: "nat list \<Rightarrow> pychar option \<times> nat" where
  "utf8_step [] = (None, 1)"
| "utf8_step (b0 # bs) =
     (if b0 < 0x80 then (Some b0, 1)
      else if 0xC2 \<le> b0 \<and> b0 \<le> 0xDF then
        (case bs of
           b1 # _ \<Rightarrow> if cont b1 then (Some ((b0 - 0xC0) * 64 + (b1 - 0x80)), 2) else (None, 1)
         | [] \<Rightarrow> (None, 1))
      else if 0xE0 \<le> b0 \<and> b0 \<le> 0xEF then
        (case bs of
           b1 # bs1 \<Rightarrow>
             if second3 b0 b1 then
               (case bs1 of
                  b2 # _ \<Rightarrow>
                    if cont b2
                    then (Some ((b0 - 0xE0) * 4096 + (b1 - 0x80) * 64 + (b2 - 0x80)), 3)
                    else (None, 2)
                | [] \<Rightarrow> (None, 2))
             else (None, 1)
         | [] \<Rightarrow> (None, 1))
      else if 0xF0 \<le> b0 \<and> b0 \<le> 0xF4 then
        (case bs of
           b1 # bs1 \<Rightarrow>
             if second4 b0 b1 then
               (case bs1 of
                  b2 # bs2 \<Rightarrow>
                    if cont b2 then
                      (case bs2 of
                         b3 # _ \<Rightarrow>
                           if cont b3
                           then (Some ((b0 - 0xF0) * 262144 + (b1 - 0x80) * 4096 +
                                       (b2 - 0x80) * 64 + (b3 - 0x80)), 4)
                           else (None, 3)
                       | [] \<Rightarrow> (None, 3))
                    else (None, 2)
                | [] \<Rightarrow> (None, 2))
             else (None, 1)
         | [] \<Rightarrow> (None, 1))
      else (None, 1))"

fun utf8_strict :: "nat list \<Rightarrow> pystr option" where
  "utf8_strict [] = Some []"
| "utf8_strict (b # bs) =
     (case utf8_step (b # bs) of
        (Some c, n) \<Rightarrow> map_option (\<lambda>cs. c # cs) (utf8_strict (drop (n - 1) bs))
      | (None, n) \<Rightarrow> None)"

text \<open>\<open>errors="replace"\<close>: each ill-formed prefix becomes U+FFFD.\<close>

fun utf8_replace :: "nat list \<Rightarrow> pystr" where
  "utf8_replace [] = []"
| "utf8_replace (b # bs) =
     (case utf8_step (b # bs) of
        (Some c, n) \<Rightarrow> c # utf8_replace (drop (n - 1) bs)
      | (None, n) \<Rightarrow> 0xFFFD # utf8_replace (drop (n - 1) bs))"

definition utf8_sig :: "nat list \<Rightarrow> pystr option" where
  "utf8_sig bs = (if take 3 bs = [0xEF, 0xBB, 0xBF] then utf8_strict (drop 3 bs) else utf8_strict bs)"

text \<open>UTF-16: the 16-bit units in the given byte order, then the surrogate pairs.\<close>

fun utf16_units :: "bool \<Rightarrow> nat list \<Rightarrow> nat list option" where
  "utf16_units little [] = Some []"
| "utf16_units little [b] = None"
| "utf16_units little (b0 # b1 # bs) =
     map_option (\<lambda>us. (if little then b1 * 256 + b0 else b0 * 256 + b1) # us) (utf16_units little bs)"

fun utf16_chars :: "nat list \<Rightarrow> pystr option" where
  "utf16_chars [] = Some []"
| "utf16_chars (u # us) =
     (if u < 0xD800 \<or> 0xE000 \<le> u then map_option (\<lambda>cs. u # cs) (utf16_chars us)
      else if u < 0xDC00 then
        (case us of
           lo # us' \<Rightarrow>
             if 0xDC00 \<le> lo \<and> lo < 0xE000
             then map_option (\<lambda>cs. (0x10000 + (u - 0xD800) * 1024 + (lo - 0xDC00)) # cs)
                    (utf16_chars us')
             else None
         | [] \<Rightarrow> None)
      else None)"

definition utf16_order :: "bool \<Rightarrow> nat list \<Rightarrow> pystr option" where
  "utf16_order little bs = (case utf16_units little bs of None \<Rightarrow> None | Some us \<Rightarrow> utf16_chars us)"

text \<open>
  \<open>utf-16\<close> without a byte order mark uses the byte order of the host, taken here as
  little-endian.
\<close>

definition utf16 :: "nat list \<Rightarrow> pystr option" where
  "utf16 bs =
     (if take 2 bs = [0xFF, 0xFE] then utf16_order True (drop 2 bs)
      else if take 2 bs = [0xFE, 0xFF] then utf16_order False (drop 2 bs)
      else utf16_order True bs)"

text \<open>The upper half of cp1251; the byte \<open>0x98\<close> has no character.\<close>

definition CP1251_HIGH :: "pychar option list" where
  "CP1251_HIGH = [
    Some 0x0402, Some 0x0403, Some 0x201A, Some 0x0453, Some 0x201E, Some 0x2026,
    Some 0x2020, Some 0x2021, Some 0x20AC, Some 0x2030, Some 0x0409, Some 0x2039,
    Some 0x040A, Some 0x040C, Some 0x040B, Some 0x040F, Some 0x0452, Some 0x2018,
    Some 0x2019, Some 0x201C, Some 0x201D, Some 0x2022, Some 0x2013, Some 0x2014,
    None, Some 0x2122, Some 0x0459, Some 0x203A, Some 0x045A, Some 0x045C,
    Some 0x045B, Some 0x045F, Some 0x00A0, Some 0x040E, Some 0x045E, Some 0x0408,
    Some 0x00A4, Some 0x0490, Some 0x00A6, Some 0x00A7, Some 0x0401, Some 0x00A9,
    Some 0x0404, Some 0x00AB, Some 0x00AC, Some 0x00AD, Some 0x00AE, Some 0x0407,
    Some 0x00B0, Some 0x00B1, Some 0x0406, Some 0x0456, Some 0x0491, Some 0x00B5,
    Some 0x00B6, Some 0x00B7, Some 0x0451, Some 0x2116, Some 0x0454, Some 0x00BB,
    Some 0x0458, Some 0x0405, Some 0x0455, Some 0x0457, Some 0x0410, Some 0x0411,
    Some 0x0412, Some 0x0413, Some 0x0414, Some 0x0415, Some 0x0416, Some 0x0417,
    Some 0x0418, Some 0x0419, Some 0x041A, Some 0x041B, Some 0x041C, Some 0x041D,
    Some 0x041E, Some 0x041F, Some 0x0420, Some 0x0421, Some 0x0422, Some 0x0423,
    Some 0x0424, Some 0x0425, Some 0x0426, Some 0x0427, Some 0x0428, Some 0x0429,
    Some 0x042A, Some 0x042B, Some 0x042C, Some 0x042D, Some 0x042E, Some 0x042F,
    Some 0x0430, Some 0x0431, Some 0x0432, Some 0x0433, Some 0x0434, Some 0x0435,
    Some 0x0436, Some 0x0437, Some 0x0438, Some 0x0439, Some 0x043A, Some 0x043B,
    Some 0x043C, Some 0x043D, Some 0x043E, Some 0x043F, Some 0x0440, Some 0x0441,
    Some 0x0442, Some 0x0443, Some 0x0444, Some 0x0445, Some 0x0446, Some 0x0447,
    Some 0x0448, Some 0x0449, Some 0x044A, Some 0x044B, Some 0x044C, Some 0x044D,
    Some 0x044E, Some 0x044F
  ]"

fun cp1251 :: "nat list \<Rightarrow> pystr option" where
  "cp1251 [] = Some []"
| "cp1251 (b # bs) =
     (case (if b < 0x80 then Some b else CP1251_HIGH ! (b - 0x80)) of
        None \<Rightarrow> None
      | Some c \<Rightarrow> map_option (\<lambda>cs. c # cs) (cp1251 bs))"

text \<open>latin-1: the character of a byte is the code point of its value.\<close>

definition latin1 :: "nat list \<Rightarrow> pystr option" where
  "latin1 bs = Some bs"

datatype encoding = UTF_8_SIG | UTF_16 | UTF_16LE | UTF_16BE | CP1251 | LATIN_1

fun decode :: "encoding \<Rightarrow> byte list \<Rightarrow> pystr option" where
  "decode UTF_8_SIG raw = utf8_sig (map unat raw)"
| "decode UTF_16 raw = utf16 (map unat raw)"
| "decode UTF_16LE raw = utf16_order True (map unat raw)"
| "decode UTF_16BE raw = utf16_order False (map unat raw)"
| "decode CP1251 raw = cp1251 (map unat raw)"
| "decode LATIN_1 raw = latin1 (map unat raw)"

definition ENCODINGS :: "encoding list" where
  "ENCODINGS = [UTF_8_SIG, UTF_16, UTF_16LE, UTF_16BE, CP1251, LATIN_1]"

text \<open>
  The loop of \<open>read_text_guessing\<close> over the encodings: \<open>Some text\<close> when it returns from
  inside the loop, \<open>None\<close> when the loop ends without returning.
\<close>

fun try_encodings :: "encoding list \<Rightarrow> byte list \<Rightarrow> pystr option" where
  "try_encodings [] raw = None"
| "try_encodings (enc # encs) raw =
     (case decode enc raw of
        Some text \<Rightarrow> if 0xFFFD \<notin> set text then Some text else try_encodings encs raw
      | None \<Rightarrow> try_encodings encs raw)"

text \<open>
  What \<open>read_text_guessing\<close> makes of the bytes it has read: the result of the loop, or
  after the loop the lossy decoding.
\<close>

definition decode_guessing :: "byte list \<Rightarrow> pystr" where
  "decode_guessing raw =
     (case try_encodings ENCODINGS raw of
        Some text \<Rightarrow> text
      | None \<Rightarrow> utf8_replace (map unat raw))"

section \<open>Lines, whitespace and the regular expressions\<close>

text \<open>
  \<open>str.splitlines\<close>: a line ends at a line boundary, which is not part of the line;
  \<open>\r\n\<close> is one boundary; there is no empty last line.
\<close>

definition is_linebreak :: "pychar \<Rightarrow> bool" where
  "is_linebreak c = (c \<in> set [0x0A, 0x0B, 0x0C, 0x0D, 0x1C, 0x1D, 0x1E, 0x85, 0x2028, 0x2029])"

fun splitlines_from :: "pystr \<Rightarrow> pystr \<Rightarrow> pystr list" where
  "splitlines_from cur [] = (if cur = [] then [] else [cur])"
| "splitlines_from cur (c # cs) =
     (if c = 0x0D then
        (case cs of
           c' # cs' \<Rightarrow> if c' = 0x0A then cur # splitlines_from [] cs' else cur # splitlines_from [] cs
         | [] \<Rightarrow> cur # splitlines_from [] cs)
      else if is_linebreak c then cur # splitlines_from [] cs
      else splitlines_from (cur @ [c]) cs)"

definition splitlines :: "pystr \<Rightarrow> pystr list" where
  "splitlines text = splitlines_from [] text"

text \<open>
  The whitespace of \<open>str.strip\<close> and of \<open>\s\<close> in a \<open>str\<close> pattern, and the decimal digits of
  \<open>\d\<close> (the characters of category Nd, Unicode 14.0 as in Python 3.11).
\<close>

definition is_space :: "pychar \<Rightarrow> bool" where
  "is_space c =
     ((0x09 \<le> c \<and> c \<le> 0x0D) \<or> (0x1C \<le> c \<and> c \<le> 0x20) \<or> c = 0x85 \<or> c = 0xA0 \<or>
      c = 0x1680 \<or> (0x2000 \<le> c \<and> c \<le> 0x200A) \<or> c = 0x2028 \<or> c = 0x2029 \<or>
      c = 0x202F \<or> c = 0x205F \<or> c = 0x3000)"

definition DECIMAL_RANGES :: "(nat \<times> nat) list" where
  "DECIMAL_RANGES = [
    (0x0030, 0x0039), (0x0660, 0x0669), (0x06F0, 0x06F9), (0x07C0, 0x07C9), (0x0966, 0x096F),
    (0x09E6, 0x09EF), (0x0A66, 0x0A6F), (0x0AE6, 0x0AEF), (0x0B66, 0x0B6F), (0x0BE6, 0x0BEF),
    (0x0C66, 0x0C6F), (0x0CE6, 0x0CEF), (0x0D66, 0x0D6F), (0x0DE6, 0x0DEF), (0x0E50, 0x0E59),
    (0x0ED0, 0x0ED9), (0x0F20, 0x0F29), (0x1040, 0x1049), (0x1090, 0x1099), (0x17E0, 0x17E9),
    (0x1810, 0x1819), (0x1946, 0x194F), (0x19D0, 0x19D9), (0x1A80, 0x1A89), (0x1A90, 0x1A99),
    (0x1B50, 0x1B59), (0x1BB0, 0x1BB9), (0x1C40, 0x1C49), (0x1C50, 0x1C59), (0xA620, 0xA629),
    (0xA8D0, 0xA8D9), (0xA900, 0xA909), (0xA9D0, 0xA9D9), (0xA9F0, 0xA9F9), (0xAA50, 0xAA59),
    (0xABF0, 0xABF9), (0xFF10, 0xFF19), (0x104A0, 0x104A9), (0x10D30, 0x10D39), (0x11066, 0x1106F),
    (0x110F0, 0x110F9), (0x11136, 0x1113F), (0x111D0, 0x111D9), (0x112F0, 0x112F9), (0x11450, 0x11459),
    (0x114D0, 0x114D9), (0x11650, 0x11659), (0x116C0, 0x116C9), (0x11730, 0x11739), (0x118E0, 0x118E9),
    (0x11950, 0x11959), (0x11C50, 0x11C59), (0x11D50, 0x11D59), (0x11DA0, 0x11DA9), (0x16A60, 0x16A69),
    (0x16AC0, 0x16AC9), (0x16B50, 0x16B59), (0x1D7CE, 0x1D7FF), (0x1E140, 0x1E149), (0x1E2F0, 0x1E2F9),
    (0x1E950, 0x1E959), (0x1FBF0, 0x1FBF9)
  ]"

definition is_decimal :: "pychar \<Rightarrow> bool" where
  "is_decimal c = list_ex (\<lambda>(lo, hi). lo \<le> c \<and> c \<le> hi) DECIMAL_RANGES"

definition strip :: "pystr \<Rightarrow> pystr" where
  "strip s = rev (dropWhile is_space (rev (dropWhile is_space s)))"

text \<open>
  A letter of a pattern compiled with \<open>re.IGNORECASE\<close> matches its two ASCII cases and the
  characters whose simple case folding is that letter: the Kelvin sign for \<open>k\<close>, the dotted
  capital and the dotless small i for \<open>i\<close>, the long s for \<open>s\<close>.
\<close>

definition ci_eq :: "char \<Rightarrow> pychar \<Rightarrow> bool" where
  "ci_eq l c =
     (c = of_char l \<or> c = lower (of_char l) \<or>
      (lower (of_char l) = of_char CHR ''k'' \<and> c = 0x212A) \<or>
      (lower (of_char l) = of_char CHR ''i'' \<and> (c = 0x130 \<or> c = 0x131)) \<or>
      (lower (of_char l) = of_char CHR ''s'' \<and> c = 0x17F))"

text \<open>
  The four patterns are sequences of character classes, each taken once or repeated
  (\<open>*\<close>, \<open>+\<close>), some repetitions captured as a group, with \<open>$\<close> last. \<open>Rep m c\<close> is the
  greedy repetition of class \<open>c\<close> at least \<open>m\<close> times, \<open>Cap m c\<close> the same inside a group.
\<close>

datatype cls = Space | NonSpace | Digit | NotQuote | Quote | Letter char

datatype item = One cls | Rep nat cls | Cap nat cls | Eol

fun in_cls :: "cls \<Rightarrow> pychar \<Rightarrow> bool" where
  "in_cls Space c = is_space c"
| "in_cls NonSpace c = (\<not> is_space c)"
| "in_cls Digit c = is_decimal c"
| "in_cls NotQuote c = (c \<noteq> 0x22)"
| "in_cls Quote c = (c = 0x22)"
| "in_cls (Letter l) c = ci_eq l c"

fun first_some :: "('a \<Rightarrow> 'b option) \<Rightarrow> 'a list \<Rightarrow> 'b option" where
  "first_some f [] = None"
| "first_some f (x # xs) = (case f x of Some y \<Rightarrow> Some y | None \<Rightarrow> first_some f xs)"

text \<open>
  \<open>pattern.match(s)\<close>: the pattern is matched from the start of \<open>s\<close> (where \<open>^\<close> holds); a
  repetition takes the longest run first and gives back one character at a time; the
  result is the list of groups of the first way that succeeds. \<open>$\<close> holds at the end of
  the string and before a newline that ends it.
\<close>

fun rx_match :: "item list \<Rightarrow> pystr \<Rightarrow> pystr list \<Rightarrow> pystr list option" where
  "rx_match [] s gs = Some gs"
| "rx_match (Eol # r) s gs = (if s = [] \<or> s = [0x0A] then rx_match r s gs else None)"
| "rx_match (One c # r) s gs =
     (case s of [] \<Rightarrow> None | x # xs \<Rightarrow> if in_cls c x then rx_match r xs gs else None)"
| "rx_match (Rep m c # r) s gs =
     first_some (\<lambda>k. rx_match r (drop k s) gs)
       (rev [m ..< Suc (length (takeWhile (in_cls c) s))])"
| "rx_match (Cap m c # r) s gs =
     first_some (\<lambda>k. rx_match r (drop k s) (gs @ [take k s]))
       (rev [m ..< Suc (length (takeWhile (in_cls c) s))])"

declare rx_match.simps [simp del]

definition word :: "string \<Rightarrow> item list" where
  "word w = map (\<lambda>l. One (Letter l)) w"

definition FILE_RE :: "item list" where
  "FILE_RE = [Rep 0 Space] @ word ''FILE'' @ [Rep 1 Space, One Quote, Cap 1 NotQuote, One Quote,
              Rep 1 Space, Cap 1 NonSpace, Rep 0 Space, Eol]"

definition TRACK_RE :: "item list" where
  "TRACK_RE = [Rep 0 Space] @ word ''TRACK'' @ [Rep 1 Space, Rep 1 Digit, Rep 1 Space] @
              word ''AUDIO'' @ [Rep 0 Space, Eol]"

definition PERFORMER_RE :: "item list" where
  "PERFORMER_RE = [Rep 0 Space] @ word ''PERFORMER'' @
                  [Rep 1 Space, One Quote, Cap 1 NotQuote, One Quote, Rep 0 Space, Eol]"

definition TITLE_RE :: "item list" where
  "TITLE_RE = [Rep 0 Space] @ word ''TITLE'' @
              [Rep 1 Space, One Quote, Cap 1 NotQuote, One Quote, Rep 0 Space, Eol]"

definition re_match :: "item list \<Rightarrow> pystr \<Rightarrow> pystr list option" where
  "re_match pattern line = rx_match pattern line []"

text \<open>\<open>m.group(1)\<close> of a match of a pattern whose first group always takes part.\<close>

definition group1 :: "pystr list \<Rightarrow> pystr" where
  "group1 gs = gs ! 0"

section \<open>Paths and the file system\<close>

text \<open>
  A \<open>pathlib\<close> path on POSIX: its root (no, one or two slashes) and its components.
  \<open>Path(s)\<close> splits at the slashes and drops the empty components and the components
  \<open>.\<close>; exactly two leading slashes are kept as the root \<open>//\<close>.
\<close>

datatype path = Path (root: nat) (parts: "pystr list")

fun split_from :: "pychar \<Rightarrow> pystr \<Rightarrow> pystr \<Rightarrow> pystr list" where
  "split_from sep cur [] = [cur]"
| "split_from sep cur (c # cs) =
     (if c = sep then cur # split_from sep [] cs else split_from sep (cur @ [c]) cs)"

definition parse_path :: "pystr \<Rightarrow> path" where
  "parse_path s =
     (let lead = length (takeWhile (\<lambda>c. c = 0x2F) s);
          rel = dropWhile (\<lambda>c. c = 0x2F) s
      in Path (if lead = 0 then 0 else if lead = 2 then 2 else 1)
              (filter (\<lambda>x. x \<noteq> [] \<and> x \<noteq> str ''.'') (split_from 0x2F [] rel)))"

text \<open>
  \<open>p.is_absolute()\<close>, \<open>p.parent\<close>, \<open>p / q\<close> (a \<open>q\<close> with a root replaces \<open>p\<close>) and \<open>str(p)\<close>
  (the path without root and components is \<open>.\<close>).
\<close>

definition is_absolute :: "path \<Rightarrow> bool" where
  "is_absolute p = (root p \<noteq> 0)"

definition parent :: "path \<Rightarrow> path" where
  "parent p = Path (root p) (butlast (parts p))"

definition joinpath :: "path \<Rightarrow> path \<Rightarrow> path" where
  "joinpath p q = (if root q \<noteq> 0 then q else Path (root p) (parts p @ parts q))"

fun intercalate :: "pystr \<Rightarrow> pystr list \<Rightarrow> pystr" where
  "intercalate sep [] = []"
| "intercalate sep [x] = x"
| "intercalate sep (x # y # ys) = x @ sep @ intercalate sep (y # ys)"

definition path_str :: "path \<Rightarrow> pystr" where
  "path_str p =
     (if root p = 0 \<and> parts p = [] then str ''.''
      else replicate (root p) 0x2F @ intercalate (str ''/'') (parts p))"

text \<open>
  \<open>p.suffix\<close>: the last component from its last dot on, when that dot is neither its first
  nor its last character.
\<close>

definition suffix :: "path \<Rightarrow> pystr" where
  "suffix p =
     (let name = (if parts p = [] then [] else last (parts p));
          after = length (takeWhile (\<lambda>c. c \<noteq> 0x2E) (rev name))
      in if 0x2E \<in> set name \<and> 0 < length name - after - 1 \<and> 0 < after
         then drop (length name - after - 1) name else [])"

text \<open>
  \<open>s.lower()\<close>, character by character on the ASCII letters. The source compares the
  result with \<open>.flac\<close> and \<open>.wav\<close> only, and no other character lowercases to a letter
  of these two.
\<close>

definition lower_str :: "pystr \<Rightarrow> pystr" where
  "lower_str s = map lower s"

definition AUDIO_EXTS :: "pystr set" where
  "AUDIO_EXTS = {str ''.flac'', str ''.wav''}"

text \<open>
  The file system is the environment of the program. Each operation is the \<open>pathlib\<close>
  method of that name and returns its result or the exception it raises:
  \<open>read_bytes\<close> raises \<open>OSError\<close> on a file it cannot read; \<open>resolve\<close> raises
  \<open>ValueError\<close> on a name with a null character and \<open>RuntimeError\<close> on a loop of
  symbolic links; \<open>exists\<close> and \<open>is_file\<close> raise the \<open>OSError\<close>s other than "not found";
  \<open>iterdir\<close> raises \<open>OSError\<close> on what is not a readable directory.
\<close>

record filesystem =
  read_bytes :: "path \<Rightarrow> py_error + byte list"
  resolve :: "path \<Rightarrow> py_error + path"
  exists :: "path \<Rightarrow> py_error + bool"
  is_file :: "path \<Rightarrow> py_error + bool"
  iterdir :: "path \<Rightarrow> py_error + path list"

section \<open>The cue parser\<close>

definition read_text_guessing :: "filesystem \<Rightarrow> path \<Rightarrow> py_error + pystr" where
  "read_text_guessing fs p =
     (case read_bytes fs p of
        Inl e \<Rightarrow> Inl e
      | Inr raw \<Rightarrow> Inr (decode_guessing raw))"

text \<open>
  The loop of \<open>parse_cue_files\<close> over the lines, with the state \<open>(refs, seen)\<close>. The call of
  \<open>resolve\<close> is outside the \<open>try\<close> of the function: what it raises leaves the function.
\<close>

fun files_loop :: "filesystem \<Rightarrow> path \<Rightarrow> pystr list \<Rightarrow> path list \<times> pystr set \<Rightarrow> py_error + path list" where
  "files_loop fs cue [] (refs, seen) = Inr refs"
| "files_loop fs cue (line # rest) (refs, seen) =
     (case re_match FILE_RE line of
        None \<Rightarrow> files_loop fs cue rest (refs, seen)
      | Some m \<Rightarrow>
          (let fname = strip (group1 m);
               ref = parse_path fname
           in case (if \<not> is_absolute ref then resolve fs (joinpath (parent cue) ref) else Inr ref) of
                Inl e \<Rightarrow> Inl e
              | Inr ref \<Rightarrow>
                  (let ref_str = path_str ref
                   in if ref_str \<notin> seen
                      then files_loop fs cue rest (refs @ [ref], insert ref_str seen)
                      else files_loop fs cue rest (refs, seen))))"

definition parse_cue_files :: "filesystem \<Rightarrow> path \<Rightarrow> py_error + path list" where
  "parse_cue_files fs cue =
     (case read_text_guessing fs cue of
        Inl e \<Rightarrow> Inr []
      | Inr text \<Rightarrow> files_loop fs cue (splitlines text) ([], {}))"

text \<open>
  The loop of \<open>parse_cue_artist_album\<close>, with the state \<open>(artist, album)\<close>; \<open>break\<close> returns
  the state. Nothing in it raises.
\<close>

fun artist_album_loop :: "pystr list \<Rightarrow> pystr option \<times> pystr option \<Rightarrow> pystr option \<times> pystr option" where
  "artist_album_loop [] (artist, album) = (artist, album)"
| "artist_album_loop (line # rest) (artist, album) =
     (if re_match TRACK_RE line \<noteq> None then (artist, album)
      else
        (case (if artist = None then re_match PERFORMER_RE line else None) of
           Some m \<Rightarrow> artist_album_loop rest (Some (strip (group1 m)), album)
         | None \<Rightarrow>
             (case (if album = None then re_match TITLE_RE line else None) of
                Some m \<Rightarrow> artist_album_loop rest (artist, Some (strip (group1 m)))
              | None \<Rightarrow> artist_album_loop rest (artist, album))))"

definition parse_cue_artist_album :: "filesystem \<Rightarrow> path \<Rightarrow> pystr option \<times> pystr option" where
  "parse_cue_artist_album fs cue =
     (case read_text_guessing fs cue of
        Inl e \<Rightarrow> (None, None)
      | Inr text \<Rightarrow> artist_album_loop (splitlines text) (None, None))"

definition count_cue_tracks :: "filesystem \<Rightarrow> path \<Rightarrow> nat" where
  "count_cue_tracks fs cue =
     (case read_text_guessing fs cue of
        Inl e \<Rightarrow> 0
      | Inr text \<Rightarrow> length (filter (\<lambda>line. re_match TRACK_RE line \<noteq> None) (splitlines text)))"

section \<open>The decision engine\<close>

text \<open>
  The generator of \<open>count_audio_files\<close>: \<open>is_file\<close> is asked of each entry of the directory
  in turn, and what it raises ends the count.
\<close>

fun count_loop :: "filesystem \<Rightarrow> path list \<Rightarrow> py_error + nat" where
  "count_loop fs [] = Inr 0"
| "count_loop fs (p # ps) =
     (case is_file fs p of
        Inl e \<Rightarrow> Inl e
      | Inr f \<Rightarrow>
          (case count_loop fs ps of
             Inl e \<Rightarrow> Inl e
           | Inr n \<Rightarrow> Inr (if f \<and> lower_str (suffix p) \<in> AUDIO_EXTS then 1 + n else n)))"

definition count_audio_files :: "filesystem \<Rightarrow> path \<Rightarrow> py_error + nat" where
  "count_audio_files fs directory =
     (case exists fs directory of
        Inl e \<Rightarrow> Inl e
      | Inr ex \<Rightarrow>
          if \<not> ex then Inr 0
          else (case iterdir fs directory of
                  Inl e \<Rightarrow> Inr 0
                | Inr ps \<Rightarrow> (case count_loop fs ps of Inl e \<Rightarrow> Inr 0 | Inr n \<Rightarrow> Inr n)))"

definition find_audio_file :: "filesystem \<Rightarrow> path list \<Rightarrow> py_error + path option" where
  "find_audio_file fs refs =
     (case refs of
        [] \<Rightarrow> Inr None
      | r # _ \<Rightarrow>
          (case exists fs r of
             Inl e \<Rightarrow> Inl e
           | Inr ex \<Rightarrow> Inr (if ex then Some r else None)))"

text \<open>The decimal digits of an integer in an f-string.\<close>

fun decimal :: "nat \<Rightarrow> pystr" where
  "decimal n = (if n < 10 then [48 + n] else decimal (n div 10) @ [48 + n mod 10])"

declare decimal.simps [simp del]

definition should_process :: "filesystem \<Rightarrow> path \<Rightarrow> path \<Rightarrow> bool \<Rightarrow> py_error + bool \<times> pystr" where
  "should_process fs cue out_dir force =
     (let track_count = count_cue_tracks fs cue
      in if track_count \<le> 1 then Inr (False, str ''no tracks or only 1 track'')
         else
           (case parse_cue_files fs cue of
              Inl e \<Rightarrow> Inl e
            | Inr refs \<Rightarrow>
                if length refs = 0 then Inr (False, str ''no audio file referenced'')
                else if length refs > 1 then Inr (False, str ''multi-file CUE (already split)'')
                else
                  (case find_audio_file fs refs of
                     Inl e \<Rightarrow> Inl e
                   | Inr audio \<Rightarrow>
                       if audio = None then Inr (False, str ''audio file not found'')
                       else if \<not> force then
                         (case count_audio_files fs out_dir of
                            Inl e \<Rightarrow> Inl e
                          | Inr existing_count \<Rightarrow>
                              if existing_count = track_count
                              then Inr (False, str ''already processed ('' @ decimal existing_count @
                                          str ''/'' @ decimal track_count @ str '' tracks)'')
                              else Inr (True, decimal track_count @ str '' tracks''))
                       else Inr (True, decimal track_count @ str '' tracks''))))"

section \<open>A file system in memory\<close>

text \<open>
  A concrete file system for the examples: regular files only, given with their contents
  under absolute paths; no symbolic links, so that \<open>resolve\<close> makes a path absolute from
  the working directory and folds its \<open>..\<close> components. A directory exists when a file
  lies below it. A name with a null character is refused as Python refuses it.
\<close>

fun fold_dotdot :: "pystr list \<Rightarrow> pystr list \<Rightarrow> pystr list" where
  "fold_dotdot acc [] = acc"
| "fold_dotdot acc (x # xs) =
     (if x = str ''..'' then fold_dotdot (butlast acc) xs else fold_dotdot (acc @ [x]) xs)"

definition lexical_resolve :: "path \<Rightarrow> path \<Rightarrow> path" where
  "lexical_resolve cwd p = (let q = joinpath cwd p in Path (root q) (fold_dotdot [] (parts q)))"

definition has_nul :: "path \<Rightarrow> bool" where
  "has_nul p = list_ex (\<lambda>x. 0 \<in> set x) (parts p)"

definition below :: "path \<Rightarrow> path \<Rightarrow> bool" where
  "below d f = (root d = root f \<and> length (parts d) < length (parts f) \<and>
                take (length (parts d)) (parts f) = parts d)"

definition memfs :: "path \<Rightarrow> (path \<times> byte list) list \<Rightarrow> filesystem" where
  "memfs cwd files =
     \<lparr> read_bytes = (\<lambda>p. if has_nul p then Inl ValueError
                         else (case map_of files (lexical_resolve cwd p) of
                                 Some raw \<Rightarrow> Inr raw
                               | None \<Rightarrow> Inl OSError)),
       resolve = (\<lambda>p. if has_nul p then Inl ValueError else Inr (lexical_resolve cwd p)),
       exists = (\<lambda>p. Inr (\<not> has_nul p \<and>
                            list_ex (\<lambda>f. f = lexical_resolve cwd p \<or> below (lexical_resolve cwd p) f)
                              (map fst files))),
       is_file = (\<lambda>p. Inr (\<not> has_nul p \<and> lexical_resolve cwd p \<in> set (map fst files))),
       iterdir = (\<lambda>p. if \<not> has_nul p \<and> list_ex (below (lexical_resolve cwd p)) (map fst files)
                       then Inr (map (\<lambda>name. joinpath p (Path 0 [name]))
                              (remdups (map (\<lambda>f. parts f ! length (parts (lexical_resolve cwd p)))
                                 (filter (below (lexical_resolve cwd p)) (map fst files)))))
                       else Inl OSError) \<rparr>"

definition ascii :: "string \<Rightarrow> byte list" where
  "ascii s = map (\<lambda>c. of_nat (of_char c)) s"

definition text_file :: "string list \<Rightarrow> byte list" where
  "text_file ls = concat (map (\<lambda>l. ascii l @ [0x0A]) ls)"

definition mkpath :: "string \<Rightarrow> path" where
  "mkpath s = parse_path (str s)"

text \<open>
  A music directory with one cue sheet, \<open>disc.cue\<close>, of the given contents, two audio files
  beside it, and three output directories: \<open>/out/one\<close> with one audio file, \<open>/out/two\<close>
  with two audio files and a text file, and \<open>/out/none\<close>, which does not exist.
\<close>

definition disc :: path where
  "disc = mkpath ''/music/album/disc.cue''"

definition album_fs :: "byte list \<Rightarrow> filesystem" where
  "album_fs cue = memfs (mkpath ''/'')
     [(disc, cue),
      (mkpath ''/music/album/a.wav'', []),
      (mkpath ''/music/album/b.wav'', []),
      (mkpath ''/out/one/01.flac'', []),
      (mkpath ''/out/two/01.flac'', []),
      (mkpath ''/out/two/02.WAV'', []),
      (mkpath ''/out/two/notes.txt'', [])]"

text \<open>
  The same directory when examining the entry \<open>notes.txt\<close> of \<open>/out/two\<close> raises, as
  \<open>is_file\<close> does on an entry it cannot examine for a reason other than "not found".
\<close>

definition stale_fs :: "byte list \<Rightarrow> filesystem" where
  "stale_fs cue = (album_fs cue)
     \<lparr> is_file := (\<lambda>p. if p = mkpath ''/out/two/notes.txt'' then Inl OSError
                        else is_file (album_fs cue) p) \<rparr>"

text \<open>
  Cue sheets, as lines: the example of the specification; one audio track only; a data
  track and an audio track in two files; one file per track; no \<open>FILE\<close> line; files named
  more than once; one file named relatively and by an absolute path through \<open>..\<close>; names
  padded with spaces; a file name with a null character.
\<close>

definition example_lines :: "string list" where
  "example_lines =
     [''PERFORMER \"Test Artist\"'', ''TITLE \"Test Album\"'', ''FILE \"a.wav\" WAVE'',
      ''TRACK 01 AUDIO'', ''TRACK 02 AUDIO'', ''PERFORMER \"Other\"'']"

definition single_lines :: "string list" where
  "single_lines = [''FILE \"a.wav\" WAVE'', ''  TRACK 01 AUDIO'']"

definition mixed_lines :: "string list" where
  "mixed_lines =
     [''FILE \"data.bin\" BINARY'', ''  TRACK 01 MODE1/2352'',
      ''FILE \"a.wav\" WAVE'', ''  TRACK 02 AUDIO'']"

definition split_lines :: "string list" where
  "split_lines =
     [''FILE \"a.wav\" WAVE'', ''  TRACK 01 AUDIO'', ''FILE \"b.wav\" WAVE'', ''  TRACK 02 AUDIO'']"

definition nofile_lines :: "string list" where
  "nofile_lines = [''TRACK 01 AUDIO'', ''TRACK 02 AUDIO'']"

definition twice_lines :: "string list" where
  "twice_lines =
     [''FILE \"a.wav\" WAVE'', ''FILE \"b.wav\" WAVE'', ''FILE \"./sub/../a.wav\" WAVE'',
      ''FILE \"/music/album/b.wav\" WAVE'']"

definition alias_lines :: "string list" where
  "alias_lines = [''FILE \"a.wav\" WAVE'', ''FILE \"/music/album/../album/a.wav\" WAVE'']"

definition padded_lines :: "string list" where
  "padded_lines = [''PERFORMER \" A \"'', ''TITLE \" B \"'', ''TRACK 01 AUDIO'']"

definition nul_lines :: "string list" where
  "nul_lines = [''FILE \"a'' @ [CHR 0x00] @ ''.wav\" WAVE'', ''TRACK 01 AUDIO'', ''TRACK 02 AUDIO'']"

section \<open>Specification predicates\<close>

text \<open>The character class \<open>[A-Za-z0-9 ]\<close> of the specification.\<close>

definition in_range :: "char \<Rightarrow> char \<Rightarrow> pychar \<Rightarrow> bool" where
  "in_range lo hi c = (of_char lo \<le> c \<and> c \<le> of_char hi)"

definition ascii_safe :: "pychar \<Rightarrow> bool" where
  "ascii_safe c = (in_range CHR ''A'' CHR ''Z'' c \<or> in_range CHR ''a'' CHR ''z'' c \<or>
                   in_range CHR ''0'' CHR ''9'' c \<or> c = of_char CHR '' '')"

text \<open>
  Invariant of the first loop: the guessed indexes are positions of \<open>result_chars\<close>, never
  the first one, in increasing order and never adjacent.
\<close>

definition gapped :: "nat list \<Rightarrow> bool" where
  "gapped gi = sorted_wrt (\<lambda>i j. i + 1 < j) gi"

definition emit_inv :: "pystr \<times> nat list \<Rightarrow> bool" where
  "emit_inv st = (gapped (snd st) \<and> list_all (\<lambda>i. 0 < i \<and> i < length (fst st)) (snd st))"


text \<open>
  The lines before the first track marker, and the capture of the first of some lines that
  matches a pattern.
\<close>

definition is_track :: "pystr \<Rightarrow> bool" where
  "is_track line = (re_match TRACK_RE line \<noteq> None)"

definition before_first_track :: "pystr list \<Rightarrow> pystr list" where
  "before_first_track lines = takeWhile (\<lambda>line. \<not> is_track line) lines"

fun first_capture :: "item list \<Rightarrow> pystr list \<Rightarrow> pystr option" where
  "first_capture pattern [] = None"
| "first_capture pattern (line # rest) =
     (case re_match pattern line of
        Some m \<Rightarrow> Some (group1 m)
      | None \<Rightarrow> first_capture pattern rest)"

text \<open>
  The names of the \<open>FILE\<close> lines in order; the reference made of a name; the results of a
  list of steps, or the first exception among them; a list without the elements whose key
  an earlier element has.
\<close>

fun file_names :: "pystr list \<Rightarrow> pystr list" where
  "file_names [] = []"
| "file_names (line # rest) =
     (case re_match FILE_RE line of
        Some m \<Rightarrow> strip (group1 m) # file_names rest
      | None \<Rightarrow> file_names rest)"

definition reference :: "filesystem \<Rightarrow> path \<Rightarrow> pystr \<Rightarrow> py_error + path" where
  "reference fs cue fname =
     (if is_absolute (parse_path fname) then Inr (parse_path fname)
      else resolve fs (joinpath (parent cue) (parse_path fname)))"

fun collect :: "('e + 'a) list \<Rightarrow> 'e + 'a list" where
  "collect [] = Inr []"
| "collect (Inl e # rest) = Inl e"
| "collect (Inr x # rest) = (case collect rest of Inl e \<Rightarrow> Inl e | Inr xs \<Rightarrow> Inr (x # xs))"

function dedup_first :: "('a \<Rightarrow> 'k) \<Rightarrow> 'a list \<Rightarrow> 'a list" where
  "dedup_first key [] = []"
| "dedup_first key (x # xs) = x # dedup_first key (filter (\<lambda>y. key y \<noteq> key x) xs)"
  by pat_completeness auto
termination
  by (relation "measure (\<lambda>(key, xs). length xs)") (auto simp: less_Suc_eq_le)

text \<open>
  The audio files directly inside a directory: its entries that are files and whose suffix,
  in lowercase, is \<open>.flac\<close> or \<open>.wav\<close>. A directory is examined when it can be listed and
  \<open>is_file\<close> returns on each of its entries.
\<close>

definition audio_files :: "filesystem \<Rightarrow> path \<Rightarrow> path list" where
  "audio_files fs d =
     (case iterdir fs d of
        Inl e \<Rightarrow> []
      | Inr ps \<Rightarrow> filter (\<lambda>p. is_file fs p = Inr True \<and> lower_str (suffix p) \<in> AUDIO_EXTS) ps)"

definition examined :: "filesystem \<Rightarrow> path \<Rightarrow> bool" where
  "examined fs d =
     (case iterdir fs d of
        Inl e \<Rightarrow> False
      | Inr ps \<Rightarrow> list_all (\<lambda>p. case is_file fs p of Inl e \<Rightarrow> False | Inr f \<Rightarrow> True) ps)"

text \<open>
  A text file of ASCII lines, each ended by a newline and holding no line boundary, and
  the text it decodes to.
\<close>

definition plain :: "string \<Rightarrow> bool" where
  "plain l = list_all (\<lambda>c. (of_char c :: nat) < 0x80 \<and> \<not> is_linebreak (of_char c)) l"

definition lines_text :: "string list \<Rightarrow> pystr" where
  "lines_text ls = concat (map (\<lambda>l. str l @ [0x0A]) ls)"

section \<open>Verification of sanitize_name\<close>

lemma ascii_safe_passes: "ascii_safe c = passes c"
  unfolding ascii_safe_def passes_def in_range_def by auto

lemma LATIN_MAP_letters:
  "list_all (\<lambda>m. case m of None \<Rightarrow> True | Some s \<Rightarrow> list_all passes (str s) \<and> length s \<le> 2) LATIN_MAP"
  by (simp add: LATIN_MAP_def str_def passes_def)

lemma LATIN_MAP_entry:
  assumes "LATIN_MAP_BEGIN \<le> ch" "ch < LATIN_MAP_END" "LATIN_MAP ! (ch - LATIN_MAP_BEGIN) = Some s"
  shows "list_all passes (str s) \<and> length s \<le> 2"
proof -
  have "ch - LATIN_MAP_BEGIN < length LATIN_MAP"
    using assms by (simp add: LATIN_MAP_END_def)
  with LATIN_MAP_letters assms(3) show ?thesis
    by (auto simp: list_all_length)
qed

lemma emit_step_shift:
  "emit_step ch (rc, gi) =
     (rc @ fst (emit_step ch ([], [])), gi @ map (\<lambda>i. length rc + i) (snd (emit_step ch ([], []))))"
  by (auto simp: emit_step_def str_def split: option.splits)

lemma emit_loop_shift:
  "emit_loop v (rc, gi) =
     (rc @ fst (emit_loop v ([], [])), gi @ map (\<lambda>i. length rc + i) (snd (emit_loop v ([], []))))"
proof (induction v arbitrary: rc gi)
  case Nil
  show ?case by simp
next
  case (Cons ch v)
  obtain e g where eg: "emit_step ch ([], []) = (e, g)" by (cases "emit_step ch ([], [])")
  obtain e' g' where eg': "emit_loop v ([], []) = (e', g')" by (cases "emit_loop v ([], [])")
  have s: "emit_step ch (rc, gi) = (rc @ e, gi @ map (\<lambda>i. length rc + i) g)"
    using emit_step_shift [of ch rc gi] eg by simp
  have l: "emit_loop (ch # v) (rc, gi) =
      ((rc @ e) @ e', (gi @ map (\<lambda>i. length rc + i) g) @ map (\<lambda>i. length (rc @ e) + i) g')"
    using Cons.IH [of "rc @ e" "gi @ map (\<lambda>i. length rc + i) g"] by (simp add: s eg')
  have r: "emit_loop (ch # v) ([], []) = (e @ e', g @ map (\<lambda>i. length e + i) g')"
    using Cons.IH [of e g] by (simp add: eg eg')
  show ?case
    unfolding l r by (simp add: add.assoc)
qed

lemma emit_loop_append: "emit_loop (u @ v) st = emit_loop v (emit_loop u st)"
  by (induction u arbitrary: st) simp_all

lemma emit_step_inv: "emit_inv st \<Longrightarrow> emit_inv (emit_step ch st)"
  by (cases st)
     (auto simp: emit_inv_def gapped_def emit_step_def str_def sorted_wrt_append list_all_iff
           split: option.splits)

lemma emit_loop_inv: "emit_inv st \<Longrightarrow> emit_inv (emit_loop v st)"
  by (induction v arbitrary: st) (simp_all add: emit_step_inv)

lemma emit_step_safe:
  "list_all passes (fst st) \<Longrightarrow> list_all passes (fst (emit_step ch st))"
  using LATIN_MAP_entry [of ch]
  by (cases st) (auto simp: emit_step_def passes_def split: option.splits)

lemma emit_loop_safe:
  "list_all passes (fst st) \<Longrightarrow> list_all passes (fst (emit_loop v st))"
  by (induction v arbitrary: st) (simp_all add: emit_step_safe)

lemma emit_loop_passes: "list_all passes v \<Longrightarrow> emit_loop v (rc, gi) = (rc @ v, gi)"
  by (induction v arbitrary: rc) (simp_all add: emit_step_def)

lemma patch_loop_char:
  assumes "gapped gi" "list_all (\<lambda>i. i < length rc) gi"
  shows "\<exists>out. patch_loop gi rc = Inr out \<and> length out = length rc \<and>
           (\<forall>j<length rc. out ! j =
              (if j \<in> set gi \<and> j + 1 < length rc \<and> \<not> isupper (rc ! (j + 1))
               then lower (rc ! j) else rc ! j))"
  using assms
proof (induction gi arbitrary: rc)
  case Nil
  then show ?case by simp
next
  case (Cons idx rest)
  have idx: "idx < length rc" and rest: "list_all (\<lambda>i. i < length rc) rest"
    using Cons.prems(2) by simp_all
  have gap: "gapped rest" and far: "\<forall>j\<in>set rest. idx + 1 < j"
    using Cons.prems(1) by (simp_all add: gapped_def)
  show ?case
  proof (cases "idx + 1 < length rc \<and> \<not> isupper (rc ! (idx + 1))")
    case True
    let ?rc = "rc[idx := lower (rc ! idx)]"
    from Cons.IH [of ?rc] gap rest obtain out where
      out: "patch_loop rest ?rc = Inr out" "length out = length rc"
        "\<forall>j<length rc. out ! j =
              (if j \<in> set rest \<and> j + 1 < length rc \<and> \<not> isupper (?rc ! (j + 1))
               then lower (?rc ! j) else ?rc ! j)"
      by auto
    have "patch_loop (idx # rest) rc = Inr out"
      using True out(1) by simp
    moreover have "out ! j =
              (if j \<in> set (idx # rest) \<and> j + 1 < length rc \<and> \<not> isupper (rc ! (j + 1))
               then lower (rc ! j) else rc ! j)" if "j < length rc" for j
    proof (cases "j = idx")
      case True
      with far have "j \<notin> set rest" by auto
      then show ?thesis using out(3) that True \<open>idx + 1 < length rc \<and> \<not> isupper (rc ! (idx + 1))\<close>
        by simp
    next
      case False
      show ?thesis
      proof (cases "j \<in> set rest")
        case True
        with far have "idx + 1 < j" by auto
        then show ?thesis using out(3) that True by simp
      next
        case False
        then show ?thesis using out(3) that \<open>j \<noteq> idx\<close> by simp
      qed
    qed
    ultimately show ?thesis using out(2) by blast
  next
    case False
    from Cons.IH [of rc] gap rest obtain out where
      out: "patch_loop rest rc = Inr out" "length out = length rc"
        "\<forall>j<length rc. out ! j =
              (if j \<in> set rest \<and> j + 1 < length rc \<and> \<not> isupper (rc ! (j + 1))
               then lower (rc ! j) else rc ! j)"
      by auto
    have "patch_loop (idx # rest) rc = Inr out"
      using False out(1) idx by auto
    moreover have "out ! j =
              (if j \<in> set (idx # rest) \<and> j + 1 < length rc \<and> \<not> isupper (rc ! (j + 1))
               then lower (rc ! j) else rc ! j)" if "j < length rc" for j
      using out(3) that False far by auto
    ultimately show ?thesis using out(2) by blast
  qed
qed


lemma lower_passes: "passes c \<Longrightarrow> passes (lower c)"
  by (auto simp: passes_def lower_def isupper_def)

lemma sanitize_name_emit:
  assumes "v \<noteq> str ''( )''" "emit_loop v ([], []) = (rc, gi)"
  shows "\<exists>out. sanitize_name v = Inr out \<and> length out = length rc \<and>
           (\<forall>j<length rc. out ! j =
              (if j \<in> set gi \<and> j + 1 < length rc \<and> \<not> isupper (rc ! (j + 1))
               then lower (rc ! j) else rc ! j))"
proof -
  have "emit_inv (emit_loop v ([], []))"
    by (rule emit_loop_inv) (simp add: emit_inv_def gapped_def)
  then have "gapped gi" "list_all (\<lambda>i. i < length rc) gi"
    using assms(2) by (auto simp: emit_inv_def list_all_iff)
  from patch_loop_char [OF this] show ?thesis
    using assms by (simp add: sanitize_name_def)
qed

text \<open>
  Claim C7. On a string of ASCII letters, digits and spaces only, \<open>sanitize_name\<close> returns
  its input unchanged.
\<close>

theorem sanitize_name_identity:
  assumes "list_all ascii_safe v"
  shows "sanitize_name v = Inr v"
proof -
  have p: "list_all passes v"
    using assms by (simp add: ascii_safe_passes [abs_def])
  have "\<not> passes 40" by (simp add: passes_def)
  then have "\<not> list_all passes (str ''( )'')" by (simp add: str_def)
  with p have "v \<noteq> str ''( )''" by auto
  then show ?thesis
    by (simp add: sanitize_name_def emit_loop_passes [OF p])
qed

text \<open>A name of letters, digits and a space.\<close>

theorem sanitize_name_identity_witness:
  "list_all ascii_safe (str ''Abc 12'') \<and> sanitize_name (str ''Abc 12'') = Inr (str ''Abc 12'')"
proof -
  have h: "list_all ascii_safe (str ''Abc 12'')"
    by (simp add: str_def ascii_safe_def in_range_def)
  from sanitize_name_identity [OF h] h show ?thesis by simp
qed

text \<open>
  Claim C6. For every input, \<open>sanitize_name\<close> returns a string (it raises nothing), and
  every character of that string is an ASCII letter, an ASCII digit or the space; this
  covers the special input \<open>( )\<close>, whose result is \<open>Untitled\<close>.
\<close>

theorem sanitize_name_charset:
  "\<exists>out. sanitize_name v = Inr out \<and> list_all ascii_safe out"
proof (cases "v = str ''( )''")
  case True
  then show ?thesis
    by (simp add: sanitize_name_def str_def ascii_safe_def in_range_def)
next
  case False
  obtain rc gi where e: "emit_loop v ([], []) = (rc, gi)"
    by (cases "emit_loop v ([], [])")
  have "list_all passes (fst (emit_loop v ([], [])))"
    by (rule emit_loop_safe) simp
  then have rc: "\<forall>j<length rc. passes (rc ! j)"
    using e by (simp add: list_all_length)
  from sanitize_name_emit [OF False e] obtain out where
    out: "sanitize_name v = Inr out" "length out = length rc"
      "\<forall>j<length rc. out ! j =
              (if j \<in> set gi \<and> j + 1 < length rc \<and> \<not> isupper (rc ! (j + 1))
               then lower (rc ! j) else rc ! j)"
    by blast
  have "passes (out ! j)" if "j < length out" for j
    using that out(2,3) rc lower_passes by auto
  then have "list_all ascii_safe out"
    by (simp add: list_all_length ascii_safe_passes)
  with out(1) show ?thesis by blast
qed


text \<open>The special input \<open>( )\<close>.\<close>

theorem sanitize_name_charset_witness:
  "sanitize_name (str ''( )'') = Inr (str ''Untitled'') \<and> list_all ascii_safe (str ''Untitled'')"
proof -
  from sanitize_name_charset [of "str ''( )''"] obtain out where
    out: "sanitize_name (str ''( )'') = Inr out" "list_all ascii_safe out"
    by blast
  have "sanitize_name (str ''( )'') = Inr (str ''Untitled'')"
    by (simp add: sanitize_name_def)
  with out show ?thesis by simp
qed

lemma emit_step_digraph:
  assumes "LATIN_MAP_BEGIN \<le> ch" "ch < LATIN_MAP_END"
    "LATIN_MAP ! (ch - LATIN_MAP_BEGIN) = Some [a, b]"
  shows "emit_step ch ([], []) = ([of_char a, of_char b], if isupper (of_char b) then [1] else [])"
proof -
  have "192 \<le> ch" using assms(1) by (simp add: LATIN_MAP_BEGIN_def)
  then have "\<not> passes ch" "ch \<noteq> 9" by (simp_all add: passes_def)
  then show ?thesis using assms by (simp add: emit_step_def str_def)
qed

text \<open>
  Claim C1. Let a character \<open>ch\<close> of the input be mapped by the table to a two-letter
  expansion \<open>a b\<close>, and let \<open>k\<close> be the length of what the characters before \<open>ch\<close> emit,
  so that the expansion stands at positions \<open>k\<close> and \<open>k + 1\<close> of the output. Then in the
  final output the first letter is \<open>a\<close>, and the second letter is \<open>b\<close> lowercased when
  \<open>b\<close> is uppercase and a character follows the expansion in the final output that is not
  uppercase; otherwise (\<open>b\<close> is not uppercase, or the next character of the output is
  uppercase, or the expansion ends the output) the second letter is \<open>b\<close> unchanged. The
  test reads the final output, which depends on the characters after \<open>ch\<close>: the patch
  runs after the whole output is built.
\<close>

theorem sanitize_name_digraph:
  assumes v: "v = pre @ ch # post"
    and ch: "LATIN_MAP_BEGIN \<le> ch" "ch < LATIN_MAP_END"
    and m: "LATIN_MAP ! (ch - LATIN_MAP_BEGIN) = Some [a, b]"
  shows "\<exists>out. sanitize_name v = Inr out \<and>
           (let k = length (fst (emit_loop pre ([], []))) in
              length out = k + 2 + length (fst (emit_loop post ([], []))) \<and>
              out ! k = of_char a \<and>
              out ! (k + 1) =
                (if isupper (of_char b) \<and> k + 2 < length out \<and> \<not> isupper (out ! (k + 2))
                 then lower (of_char b) else of_char b))"
proof -
  obtain e1 g1 where p1: "emit_loop pre ([], []) = (e1, g1)"
    by (cases "emit_loop pre ([], [])")
  obtain e3 g3 where p3: "emit_loop post ([], []) = (e3, g3)"
    by (cases "emit_loop post ([], [])")
  have "\<forall>c\<in>set (str ''( )''). c < 192" by (simp add: str_def)
  moreover have "ch \<in> set v" "192 \<le> ch"
    using v ch(1) by (simp_all add: LATIN_MAP_BEGIN_def)
  ultimately have ne: "v \<noteq> str ''( )''" by auto
  define k where "k = length e1"
  define g2 where "g2 = (if isupper (of_char b) then [1::nat] else [])"
  define rc where "rc = e1 @ [of_char a, of_char b] @ e3"
  define gi where "gi = g1 @ map (\<lambda>i. k + i) g2 @ map (\<lambda>i. k + 2 + i) g3"
  have i1: "emit_inv (emit_loop pre ([], []))" and i3: "emit_inv (emit_loop post ([], []))"
    by (rule emit_loop_inv, simp add: emit_inv_def gapped_def)+
  have g1: "\<forall>i\<in>set g1. i < k"
    using i1 p1 by (auto simp: emit_inv_def list_all_iff k_def)
  have g3: "\<forall>i\<in>set g3. 0 < i"
    using i3 p3 by (auto simp: emit_inv_def list_all_iff)
  have step: "emit_step ch (e1, g1) = (e1 @ [of_char a, of_char b], g1 @ map (\<lambda>i. k + i) g2)"
    using emit_step_shift [of ch e1 g1] emit_step_digraph [OF ch m]
    by (simp add: k_def g2_def)
  have "emit_loop v ([], []) = emit_loop post (emit_step ch (e1, g1))"
    by (simp add: v emit_loop_append p1)
  also have "\<dots> = (rc, gi)"
    unfolding step
    by (subst emit_loop_shift) (simp add: p3 rc_def gi_def k_def)
  finally have e: "emit_loop v ([], []) = (rc, gi)" .
  from sanitize_name_emit [OF ne e] obtain out where
    out: "sanitize_name v = Inr out" "length out = length rc"
      "\<forall>j<length rc. out ! j =
              (if j \<in> set gi \<and> j + 1 < length rc \<and> \<not> isupper (rc ! (j + 1))
               then lower (rc ! j) else rc ! j)"
    by blast
  have len: "length rc = k + 2 + length e3"
    by (simp add: rc_def k_def)
  have nk: "k \<notin> set gi"
    using g1 g3 by (auto simp: gi_def g2_def)
  have nk1: "k + 1 \<in> set gi \<longleftrightarrow> isupper (of_char b)"
    using g1 g3 by (auto simp: gi_def g2_def)
  have nk2: "k + 2 \<notin> set gi"
    using g1 g3 by (auto simp: gi_def g2_def)
  have rk: "rc ! k = of_char a" and rk1: "rc ! (k + 1) = of_char b"
    by (simp_all add: rc_def k_def nth_append)
  have ok: "out ! k = of_char a"
    using out(3) len nk rk by simp
  have ok2: "out ! (k + 2) = rc ! (k + 2)" if "k + 2 < length rc"
    using out(3) that nk2 by simp
  have ok1: "out ! (k + 1) =
      (if isupper (of_char b) \<and> k + 2 < length out \<and> \<not> isupper (out ! (k + 2))
       then lower (of_char b) else of_char b)"
  proof -
    have "out ! (k + 1) =
        (if k + 1 \<in> set gi \<and> k + 1 + 1 < length rc \<and> \<not> isupper (rc ! (k + 1 + 1))
         then lower (rc ! (k + 1)) else rc ! (k + 1))"
      using out(3) len by simp
    then show ?thesis
      using nk1 rk1 ok2 out(2) by (auto simp: add.assoc)
  qed
  show ?thesis
    using out(1,2) len ok ok1 by (simp add: p1 p3 k_def Let_def)
qed

text \<open>
  The letter U+00C6, mapped to \<open>AE\<close>, three times in one input: before the lowercase
  \<open>g\<close> its expansion becomes \<open>Ae\<close>; before the uppercase \<open>G\<close> and at the end of the
  output it stays \<open>AE\<close>.
\<close>

theorem sanitize_name_digraph_witness:
  "LATIN_MAP_BEGIN \<le> 198 \<and> 198 < LATIN_MAP_END \<and>
   LATIN_MAP ! (198 - LATIN_MAP_BEGIN) = Some ''AE'' \<and>
   sanitize_name [198, 103, 32, 198, 71, 198] = Inr (str ''Aeg AEGAE'') \<and>
   str ''Aeg AEGAE'' ! (0 + 1) = lower (of_char CHR ''E'')"
proof -
  have h1: "[198, 103, 32, 198, 71, 198] = [] @ 198 # [103, 32, 198, 71, 198]" by simp
  have h3: "LATIN_MAP_BEGIN \<le> 198" "198 < LATIN_MAP_END"
    by (simp_all add: LATIN_MAP_BEGIN_def LATIN_MAP_END_def LATIN_MAP_def)
  have h4: "LATIN_MAP ! (198 - LATIN_MAP_BEGIN) = Some ''AE''"
    by (simp add: LATIN_MAP_BEGIN_def LATIN_MAP_def)
  have v: "sanitize_name [198, 103, 32, 198, 71, 198] = Inr (str ''Aeg AEGAE'')"
    by (simp add: sanitize_name_def str_def LATIN_MAP_def LATIN_MAP_BEGIN_def LATIN_MAP_END_def
        passes_def isupper_def lower_def emit_step_def)
  from sanitize_name_digraph [OF h1 h3 h4] v
  have "str ''Aeg AEGAE'' ! (0 + 1) = lower (of_char CHR ''E'')"
    by (simp add: str_def isupper_def)
  with h3 h4 v show ?thesis by simp
qed

section \<open>Verification of the text decoder\<close>

lemma latin1_clean: "decode LATIN_1 raw = Some (map unat raw) \<and> 0xFFFD \<notin> set (map unat raw)"
proof -
  have "unat b \<noteq> 0xFFFD" for b :: byte
    using unsigned_less [of b, where ?'a = nat] by simp
  then show ?thesis by (auto simp: latin1_def)
qed

lemma try_encodings_Some:
  "try_encodings encs raw = Some text \<Longrightarrow>
     (\<exists>enc\<in>set encs. decode enc raw = Some text) \<and> 0xFFFD \<notin> set text"
  by (induction encs) (auto split: option.splits if_splits)

lemma try_encodings_latin1:
  "LATIN_1 \<in> set encs \<Longrightarrow> \<exists>text. try_encodings encs raw = Some text"
proof (induction encs)
  case Nil
  then show ?case by simp
next
  case (Cons enc encs)
  show ?case
  proof (cases "enc = LATIN_1")
    case True
    then show ?thesis using latin1_clean [of raw] by (auto split: option.splits)
  next
    case False
    with Cons show ?thesis by (auto split: option.splits)
  qed
qed

text \<open>
  Claim C10. Strict latin-1 decoding succeeds on every byte sequence and its result holds
  no U+FFFD. Hence, for every byte sequence, the loop of \<open>read_text_guessing\<close> returns from
  inside (\<open>try_encodings\<close> is \<open>Some\<close>), the lossy fallback is never taken, and the text
  returned is the strict decoding of the bytes in one of the encodings tried, without
  U+FFFD.
\<close>

theorem fallback_unreachable:
  "decode LATIN_1 raw = Some (map unat raw) \<and> 0xFFFD \<notin> set (map unat raw) \<and>
   (\<exists>text. try_encodings ENCODINGS raw = Some text \<and> decode_guessing raw = text \<and>
           0xFFFD \<notin> set text \<and> (\<exists>enc\<in>set ENCODINGS. decode enc raw = Some text))"
proof -
  have "LATIN_1 \<in> set ENCODINGS" by (simp add: ENCODINGS_def)
  from try_encodings_latin1 [OF this] obtain decoded where
    t: "try_encodings ENCODINGS raw = Some decoded" by blast
  from try_encodings_Some [OF t] t latin1_clean [of raw] show ?thesis
    by (auto simp: decode_guessing_def)
qed

lemma utf8_strict_ascii: "list_all (\<lambda>b. b < 0x80) bs \<Longrightarrow> utf8_strict bs = Some bs"
  by (induction bs) simp_all

lemma decode_guessing_ascii:
  assumes "list_all (\<lambda>b. b < 0x80) (map unat raw)"
  shows "decode_guessing raw = map unat raw"
proof -
  let ?bs = "map unat raw"
  have "take 3 ?bs \<noteq> [0xEF, 0xBB, 0xBF]"
  proof
    assume t: "take 3 ?bs = [0xEF, 0xBB, 0xBF]"
    then have "?bs \<noteq> []" by auto
    then obtain b bs' where b: "?bs = b # bs'" by (cases ?bs) auto
    with t have "b = 0xEF" by simp
    with assms b show False by simp
  qed
  then have "decode UTF_8_SIG raw = Some ?bs"
    using utf8_strict_ascii [OF assms] by (simp add: utf8_sig_def)
  moreover have "0xFFFD \<notin> set ?bs"
    using assms by (auto simp: list_all_iff)
  ultimately show ?thesis
    by (simp add: decode_guessing_def ENCODINGS_def)
qed

lemma text_file_bytes:
  "list_all plain ls \<Longrightarrow> map unat (text_file ls) = lines_text ls"
proof (induction ls)
  case Nil
  show ?case by (simp add: text_file_def lines_text_def)
next
  case (Cons l ls)
  have "map unat (ascii l) = str l"
    by (induction l) (simp_all add: ascii_def str_def unat_of_nat)
  with Cons show ?case
    by (simp add: text_file_def lines_text_def)
qed

lemma lines_text_ascii: "list_all plain ls \<Longrightarrow> list_all (\<lambda>b. b < 0x80) (lines_text ls)"
  by (induction ls) (auto simp: lines_text_def plain_def str_def list_all_iff)

lemma splitlines_from_line:
  "list_all (\<lambda>c. \<not> is_linebreak c) l \<Longrightarrow>
     splitlines_from cur (l @ 0x0A # rest) = (cur @ l) # splitlines_from [] rest"
proof (induction l arbitrary: cur)
  case Nil
  show ?case by (simp add: is_linebreak_def)
next
  case (Cons c l)
  then have "c \<noteq> 0x0D" "\<not> is_linebreak c" by (auto simp: is_linebreak_def)
  with Cons show ?case by simp
qed

lemma splitlines_lines_text: "list_all plain ls \<Longrightarrow> splitlines (lines_text ls) = map str ls"
proof -
  have "list_all plain ls \<Longrightarrow> splitlines_from [] (lines_text ls) = map str ls"
  proof (induction ls)
    case Nil
    show ?case by (simp add: lines_text_def)
  next
    case (Cons l ls)
    then have "list_all (\<lambda>c. \<not> is_linebreak c) (str l)"
      by (auto simp: plain_def str_def list_all_iff)
    from splitlines_from_line [OF this, of "[]" "lines_text ls"] Cons show ?case
      by (simp add: lines_text_def)
  qed
  then show "list_all plain ls \<Longrightarrow> splitlines (lines_text ls) = map str ls"
    by (simp add: splitlines_def)
qed

lemma read_text_file:
  assumes "read_bytes fs p = Inr (text_file ls)" "list_all plain ls"
  shows "read_text_guessing fs p = Inr (lines_text ls)"
  using assms decode_guessing_ascii [of "text_file ls"] lines_text_ascii [of ls]
  by (simp add: read_text_guessing_def text_file_bytes)

section \<open>Verification of the cue parser\<close>

lemma in_cls_Space: "in_cls Space = is_space"
  by (rule ext) simp

lemma first_some_SomeD: "first_some f xs = Some y \<Longrightarrow> \<exists>x\<in>set xs. f x = Some y"
  by (induction xs) (auto split: option.splits)

lemma lead_letter:
  assumes m: "rx_match (Rep 0 Space # One (Letter l) # r) s gs = Some g"
    and l: "\<And>x. ci_eq l x \<Longrightarrow> \<not> is_space x"
  shows "\<exists>x xs. dropWhile is_space s = x # xs \<and> ci_eq l x"
proof -
  let ?n = "length (takeWhile is_space s)"
  from m have "first_some (\<lambda>k. rx_match (One (Letter l) # r) (drop k s) gs)
                 (rev [0 ..< Suc ?n]) = Some g"
    by (simp only: rx_match.simps(4) in_cls_Space)
  from first_some_SomeD [OF this]
  obtain k where k: "k < Suc ?n" "rx_match (One (Letter l) # r) (drop k s) gs = Some g"
    by (auto simp del: upt_Suc)
  then obtain x xs where x: "drop k s = x # xs" "ci_eq l x"
    by (auto simp: rx_match.simps(3) split: list.splits if_splits)
  have "k = ?n"
  proof (rule ccontr)
    assume "k \<noteq> ?n"
    with k(1) have lt: "k < ?n" by simp
    then have "takeWhile is_space s ! k \<in> set (takeWhile is_space s)" by simp
    then have "is_space (takeWhile is_space s ! k)" by (rule set_takeWhileD [THEN conjunct2])
    moreover have "takeWhile is_space s ! k = s ! k" using lt by (rule takeWhile_nth)
    moreover have "s ! k = x"
      using x(1) by (metis Cons_nth_drop_Suc drop_all list.discI list.inject not_less)
    ultimately show False using l x(2) by simp
  qed
  with x show ?thesis by (simp add: dropWhile_eq_drop)
qed

lemma performer_not_title:
  assumes "re_match PERFORMER_RE line \<noteq> None"
  shows "re_match TITLE_RE line = None"
proof (rule ccontr)
  assume "re_match TITLE_RE line \<noteq> None"
  then obtain g where t: "rx_match TITLE_RE line [] = Some g" by (auto simp: re_match_def)
  from assms obtain g' where p: "rx_match PERFORMER_RE line [] = Some g'"
    by (auto simp: re_match_def)
  have sp: "\<not> is_space x" if "ci_eq CHR ''P'' x \<or> ci_eq CHR ''T'' x" for x
    using that by (auto simp: ci_eq_def is_space_def lower_def isupper_def)
  obtain r1 where r1: "PERFORMER_RE = Rep 0 Space # One (Letter CHR ''P'') # r1"
    by (simp add: PERFORMER_RE_def word_def)
  obtain r2 where r2: "TITLE_RE = Rep 0 Space # One (Letter CHR ''T'') # r2"
    by (simp add: TITLE_RE_def word_def)
  from lead_letter [OF p [unfolded r1]] sp
  obtain x xs where x: "dropWhile is_space line = x # xs" "ci_eq CHR ''P'' x" by blast
  from lead_letter [OF t [unfolded r2]] sp
  obtain y ys where y: "dropWhile is_space line = y # ys" "ci_eq CHR ''T'' y" by blast
  from x y have "ci_eq CHR ''P'' x \<and> ci_eq CHR ''T'' x" by simp
  then show False by (auto simp: ci_eq_def lower_def isupper_def)
qed

lemma artist_album_loop_char:
  "artist_album_loop lines (artist, album) =
     ((case artist of Some a \<Rightarrow> Some a
       | None \<Rightarrow> map_option strip (first_capture PERFORMER_RE (before_first_track lines))),
      (case album of Some b \<Rightarrow> Some b
       | None \<Rightarrow> map_option strip (first_capture TITLE_RE (before_first_track lines))))"
proof (induction lines arbitrary: artist album)
  case Nil
  show ?case by (simp add: before_first_track_def split: option.splits)
next
  case (Cons line rest)
  show ?case
  proof (cases "is_track line")
    case True
    then obtain m where "re_match TRACK_RE line = Some m"
      by (auto simp: is_track_def)
    with True show ?thesis
      by (simp add: before_first_track_def split: option.splits)
  next
    case False
    then have nt: "re_match TRACK_RE line = None" by (simp add: is_track_def)
    have b: "before_first_track (line # rest) = line # before_first_track rest"
      using False by (simp add: before_first_track_def)
    show ?thesis
    proof (cases "re_match PERFORMER_RE line")
      case None
      then show ?thesis
        by (simp add: nt b Cons.IH split: option.splits)
    next
      case (Some m)
      then have "re_match TITLE_RE line = None"
        using performer_not_title by simp
      with Some show ?thesis
        by (simp add: nt b Cons.IH split: option.splits)
    qed
  qed
qed

text \<open>
  Claim C2, as amended. For every cue sheet that can be read, \<open>parse_cue_artist_album\<close>
  looks at the lines before the first line that matches the track marker pattern only,
  and returns the capture of the first of them that matches \<open>PERFORMER "<text>"\<close> and the
  capture of the first that matches \<open>TITLE "<text>"\<close>, each with the whitespace at its
  ends stripped, and \<open>None\<close> for one that is absent. A \<open>PERFORMER\<close> line after the first
  track marker is not among these lines.
\<close>

theorem parse_cue_artist_album_first:
  assumes "read_text_guessing fs cue = Inr text"
  shows "parse_cue_artist_album fs cue =
     (map_option strip (first_capture PERFORMER_RE (before_first_track (splitlines text))),
      map_option strip (first_capture TITLE_RE (before_first_track (splitlines text))))"
  using assms by (simp add: parse_cue_artist_album_def artist_album_loop_char)

lemma files_loop_char:
  "files_loop fs cue lines (refs, seen) =
     (case collect (map (reference fs cue) (file_names lines)) of
        Inl e \<Rightarrow> Inl e
      | Inr rs \<Rightarrow> Inr (refs @ dedup_first path_str (filter (\<lambda>r. path_str r \<notin> seen) rs)))"
proof (induction lines arbitrary: refs seen)
  case Nil
  show ?case by simp
next
  case (Cons line rest)
  show ?case
  proof (cases "re_match FILE_RE line")
    case None
    then show ?thesis by (simp add: Cons.IH)
  next
    case (Some m)
    show ?thesis
    proof (cases "reference fs cue (strip (group1 m))")
      case (Inl e)
      then show ?thesis
        using Some by (simp add: reference_def Let_def split: if_splits)
    next
      case (Inr ref)
      have f: "filter (\<lambda>r. path_str r \<noteq> k \<and> path_str r \<notin> seen) rs =
               filter (\<lambda>r. path_str r \<notin> seen \<and> path_str r \<noteq> k) rs" for rs k
        by (induction rs) auto
      show ?thesis
        using Some Inr
        by (auto simp: reference_def Let_def Cons.IH f split: if_splits sum.splits)
    qed
  qed
qed

lemma parse_cue_files_char:
  assumes "read_text_guessing fs cue = Inr text"
  shows "parse_cue_files fs cue =
     (case collect (map (reference fs cue) (file_names (splitlines text))) of
        Inl e \<Rightarrow> Inl e
      | Inr rs \<Rightarrow> Inr (dedup_first path_str rs))"
  using assms by (simp add: parse_cue_files_def files_loop_char split: sum.splits)

lemma collect_Inr: "collect (map Inr rs) = Inr rs"
  by (induction rs) simp_all

lemma dedup_first_set: "set (dedup_first key xs) \<subseteq> set xs"
  by (induction key xs rule: dedup_first.induct) auto

lemma dedup_first_distinct: "distinct (map key (dedup_first key xs))"
proof (induction key xs rule: dedup_first.induct)
  case (1 key)
  show ?case by simp
next
  case (2 key x xs)
  have "key x \<notin> key ` set (dedup_first key (filter (\<lambda>y. key y \<noteq> key x) xs))"
    using dedup_first_set [of key "filter (\<lambda>y. key y \<noteq> key x) xs"] by auto
  with 2 show ?case by simp
qed

lemma dedup_first_keys: "key ` set (dedup_first key xs) = key ` set xs"
proof (induction key xs rule: dedup_first.induct)
  case (1 key)
  show ?case by simp
next
  case (2 key x xs)
  then show ?case by auto
qed

text \<open>
  Claim C8, as amended. A cue sheet that cannot be read gives the empty list. For a cue
  sheet that can be read, take the names of its \<open>FILE\<close> lines in order, each stripped of
  the whitespace at its ends and parsed as a path (empty components, components \<open>.\<close> and
  a slash at the end are dropped, components \<open>..\<close> are kept, and slashes at the start
  are one root, or the root \<open>//\<close> when they are exactly two), and the reference of each:
  a path that is not absolute is joined to the directory of the cue sheet and resolved,
  an absolute path is not resolved. When every resolution returns, \<open>parse_cue_files\<close>
  returns these references without those whose path string an earlier one has: the
  first of each path string, in the order of the lines. The path strings of the result
  are different from each other and are those of the references. The list may be empty.
\<close>

theorem parse_cue_files_dedup:
  "(\<forall>e. read_text_guessing fs cue = Inl e \<longrightarrow> parse_cue_files fs cue = Inr []) \<and>
   (\<forall>text rs. read_text_guessing fs cue = Inr text \<and>
        map (reference fs cue) (file_names (splitlines text)) = map Inr rs \<longrightarrow>
      (\<exists>refs. parse_cue_files fs cue = Inr refs \<and> refs = dedup_first path_str rs \<and>
              distinct (map path_str refs) \<and> path_str ` set refs = path_str ` set rs))"
proof -
  have "parse_cue_files fs cue = Inr []" if "read_text_guessing fs cue = Inl e" for e
    using that by (simp add: parse_cue_files_def)
  moreover have "parse_cue_files fs cue = Inr (dedup_first path_str rs)"
    if "read_text_guessing fs cue = Inr t"
      "map (reference fs cue) (file_names (splitlines t)) = map Inr rs" for t rs
    using parse_cue_files_char [OF that(1)] that(2) by (simp add: collect_Inr)
  ultimately show ?thesis
    by (auto simp: dedup_first_distinct dedup_first_keys)
qed

text \<open>
  What the three parsing functions return when the cue sheet cannot be read.
\<close>

lemma read_failure_defaults:
  assumes "read_text_guessing fs cue = Inl e"
  shows "parse_cue_files fs cue = Inr [] \<and> parse_cue_artist_album fs cue = (None, None) \<and>
         count_cue_tracks fs cue = 0"
  using assms by (simp add: parse_cue_files_def parse_cue_artist_album_def count_cue_tracks_def)

section \<open>Verification of the decision engine\<close>

text \<open>
  What \<open>count_audio_files\<close> returns when the existence test returns: the number of the
  audio files directly inside the directory when it exists and is examined, and \<open>0\<close> when
  it does not exist, when listing it raises and when \<open>is_file\<close> raises on an entry.
\<close>

lemma count_loop_returns:
  "list_all (\<lambda>p. case is_file fs p of Inl e \<Rightarrow> False | Inr f \<Rightarrow> True) ps \<Longrightarrow>
     count_loop fs ps =
       Inr (length (filter (\<lambda>p. is_file fs p = Inr True \<and> lower_str (suffix p) \<in> AUDIO_EXTS) ps))"
  by (induction ps) (auto split: sum.splits)

lemma count_loop_raises:
  "\<not> list_all (\<lambda>p. case is_file fs p of Inl e \<Rightarrow> False | Inr f \<Rightarrow> True) ps \<Longrightarrow>
     \<exists>e. count_loop fs ps = Inl e"
  by (induction ps) (auto split: sum.splits)

lemma count_audio_files_char:
  assumes "exists fs d = Inr ex"
  shows "count_audio_files fs d =
           Inr (if ex \<and> examined fs d then length (audio_files fs d) else 0)"
proof (cases "iterdir fs d")
  case (Inl e)
  with assms show ?thesis
    by (simp add: count_audio_files_def examined_def)
next
  case (Inr ps)
  show ?thesis
  proof (cases "list_all (\<lambda>p. case is_file fs p of Inl e \<Rightarrow> False | Inr f \<Rightarrow> True) ps")
    case True
    with assms Inr count_loop_returns [OF True] show ?thesis
      by (simp add: count_audio_files_def examined_def audio_files_def)
  next
    case False
    from count_loop_raises [OF False] obtain e where "count_loop fs ps = Inl e" by blast
    with assms Inr False show ?thesis
      by (simp add: count_audio_files_def examined_def)
  qed
qed

text \<open>
  Claim C3. For a cue sheet with no track marker or one, \<open>should_process\<close> returns the
  rejection \<open>no tracks or only 1 track\<close>, whatever the output directory, the force flag,
  the \<open>FILE\<close> lines of the sheet and the file system.
\<close>

theorem should_process_few_tracks:
  "count_cue_tracks fs cue \<le> 1 \<Longrightarrow>
     should_process fs cue out_dir force = Inr (False, str ''no tracks or only 1 track'')"
  by (simp add: should_process_def)

text \<open>
  Claim C4, as amended. For a cue sheet with more than one track marker, whose \<open>FILE\<close>
  references are parsed: with two or more references \<open>should_process\<close> rejects with
  \<open>multi-file CUE (already split)\<close>, with none it rejects with
  \<open>no audio file referenced\<close>.
\<close>

theorem should_process_file_count:
  assumes "1 < count_cue_tracks fs cue" "parse_cue_files fs cue = Inr refs"
  shows "(2 \<le> length refs \<longrightarrow>
            should_process fs cue out_dir force = Inr (False, str ''multi-file CUE (already split)'')) \<and>
         (refs = [] \<longrightarrow>
            should_process fs cue out_dir force = Inr (False, str ''no audio file referenced''))"
  using assms by (auto simp: should_process_def Let_def)

text \<open>
  Claim C5, as amended. Let the cue sheet have \<open>N > 1\<close> track markers and one reference,
  to a file that exists. With the force flag, \<open>should_process\<close> accepts with the reason
  \<open>N tracks\<close>, whatever the output directory holds or raises: its files are not counted.
  Without the flag, when the existence test of the output directory returns,
  \<open>should_process\<close> rejects with \<open>already processed (N/N tracks)\<close> exactly when the
  directory exists, is examined (it can be listed and \<open>is_file\<close> returns on each entry)
  and the number of audio files directly inside it is \<open>N\<close>; in every other case it
  accepts with \<open>N tracks\<close>: when the number is smaller or larger, when the directory does
  not exist, and when listing it or examining an entry raises.
\<close>

theorem should_process_idempotency:
  assumes "count_cue_tracks fs cue = N" "1 < N"
    "parse_cue_files fs cue = Inr [audio]" "exists fs audio = Inr True"
  shows "should_process fs cue out_dir True = Inr (True, decimal N @ str '' tracks'') \<and>
         (\<forall>ex. exists fs out_dir = Inr ex \<longrightarrow>
            should_process fs cue out_dir False =
              (if ex \<and> examined fs out_dir \<and> length (audio_files fs out_dir) = N
               then Inr (False, str ''already processed ('' @ decimal N @ str ''/'' @ decimal N @
                           str '' tracks)'')
               else Inr (True, decimal N @ str '' tracks'')))"
proof -
  have forced: "should_process fs cue out_dir True = Inr (True, decimal N @ str '' tracks'')"
    using assms by (simp add: should_process_def Let_def find_audio_file_def)
  have "should_process fs cue out_dir False =
              (if ex \<and> examined fs out_dir \<and> length (audio_files fs out_dir) = N
               then Inr (False, str ''already processed ('' @ decimal N @ str ''/'' @ decimal N @
                           str '' tracks)'')
               else Inr (True, decimal N @ str '' tracks''))"
    if "exists fs out_dir = Inr ex" for ex
    using assms count_audio_files_char [OF that]
    by (auto simp: should_process_def Let_def find_audio_file_def)
  with forced show ?thesis by blast
qed

section \<open>Examples\<close>

text \<open>
  The cue sheets of the example directory, evaluated: facts for the simplifier, then the
  lines of each sheet matched, then the functions applied to the sheets.
\<close>

lemmas rx_eval = re_match_def rx_match.simps FILE_RE_def TRACK_RE_def PERFORMER_RE_def TITLE_RE_def
  word_def str_def is_space_def ci_eq_def lower_def isupper_def is_decimal_def DECIMAL_RANGES_def
  group1_def strip_def

lemmas fs_eval = album_fs_def memfs_def disc_def mkpath_def parse_path_def str_def has_nul_def
  lexical_resolve_def joinpath_def below_def parent_def is_absolute_def path_str_def Let_def

lemma album_read_bytes: "read_bytes (album_fs cue) disc = Inr cue"
  by (simp add: fs_eval)

lemma album_read:
  "list_all plain ls \<Longrightarrow> read_text_guessing (album_fs (text_file ls)) disc = Inr (lines_text ls)"
  by (rule read_text_file [OF album_read_bytes])

lemma album_tracks:
  "list_all plain ls \<Longrightarrow>
     count_cue_tracks (album_fs (text_file ls)) disc = length (filter is_track (map str ls))"
  by (simp add: count_cue_tracks_def album_read splitlines_lines_text is_track_def [abs_def])

lemma album_files:
  "list_all plain ls \<Longrightarrow>
     parse_cue_files (album_fs (text_file ls)) disc =
       files_loop (album_fs (text_file ls)) disc (map str ls) ([], {})"
  by (simp add: parse_cue_files_def album_read splitlines_lines_text)

lemma plain_fixtures:
  "list_all plain example_lines" "list_all plain single_lines" "list_all plain mixed_lines"
  "list_all plain split_lines" "list_all plain nofile_lines" "list_all plain twice_lines"
  "list_all plain alias_lines" "list_all plain padded_lines" "list_all plain nul_lines"
  by (simp_all add: plain_def is_linebreak_def example_lines_def single_lines_def mixed_lines_def
      split_lines_def nofile_lines_def twice_lines_def alias_lines_def padded_lines_def nul_lines_def)


lemma example_tracks: "map is_track (map str example_lines) = [False, False, False, True, True, False]"
  by (simp add: example_lines_def is_track_def rx_eval)

lemma example_count: "count_cue_tracks (album_fs (text_file example_lines)) disc = 2"
proof -
  have "length (filter is_track (map str example_lines)) = 2"
    using example_tracks by (simp add: example_lines_def)
  then show ?thesis
    by (simp add: album_tracks plain_fixtures)
qed

lemma example_files:
  "files_loop (album_fs cue) disc (map str example_lines) ([], {}) = Inr [mkpath ''/music/album/a.wav'']"
  by (simp add: example_lines_def rx_eval fs_eval)

lemma example_performer:
  "first_capture PERFORMER_RE (map str (take 3 example_lines)) = Some (str ''Test Artist'')"
  by (simp add: example_lines_def rx_eval)

lemma example_title:
  "first_capture TITLE_RE (map str (take 3 example_lines)) = Some (str ''Test Album'')"
  by (simp add: example_lines_def rx_eval)

lemma single_tracks: "map is_track (map str single_lines) = [False, True]"
  by (simp add: single_lines_def is_track_def rx_eval)

lemma single_count: "count_cue_tracks (album_fs (text_file single_lines)) disc = 1"
proof -
  have "length (filter is_track (map str single_lines)) = 1"
    using single_tracks by (simp add: single_lines_def)
  then show ?thesis
    by (simp add: album_tracks plain_fixtures)
qed

lemma mixed_tracks: "map is_track (map str mixed_lines) = [False, False, False, True]"
  by (simp add: mixed_lines_def is_track_def rx_eval)

lemma mixed_count: "count_cue_tracks (album_fs (text_file mixed_lines)) disc = 1"
proof -
  have "length (filter is_track (map str mixed_lines)) = 1"
    using mixed_tracks by (simp add: mixed_lines_def)
  then show ?thesis
    by (simp add: album_tracks plain_fixtures)
qed

lemma mixed_files:
  "files_loop (album_fs cue) disc (map str mixed_lines) ([], {}) =
     Inr [mkpath ''/music/album/data.bin'', mkpath ''/music/album/a.wav'']"
  by (simp add: mixed_lines_def rx_eval fs_eval)

lemma split_tracks: "map is_track (map str split_lines) = [False, True, False, True]"
  by (simp add: split_lines_def is_track_def rx_eval)

lemma split_count: "count_cue_tracks (album_fs (text_file split_lines)) disc = 2"
proof -
  have "length (filter is_track (map str split_lines)) = 2"
    using split_tracks by (simp add: split_lines_def)
  then show ?thesis
    by (simp add: album_tracks plain_fixtures)
qed

lemma split_files:
  "files_loop (album_fs cue) disc (map str split_lines) ([], {}) =
     Inr [mkpath ''/music/album/a.wav'', mkpath ''/music/album/b.wav'']"
  by (simp add: split_lines_def rx_eval fs_eval)

lemma nofile_tracks: "map is_track (map str nofile_lines) = [True, True]"
  by (simp add: nofile_lines_def is_track_def rx_eval)

lemma nofile_count: "count_cue_tracks (album_fs (text_file nofile_lines)) disc = 2"
proof -
  have "length (filter is_track (map str nofile_lines)) = 2"
    using nofile_tracks by (simp add: nofile_lines_def)
  then show ?thesis
    by (simp add: album_tracks plain_fixtures)
qed

lemma nofile_files: "files_loop (album_fs cue) disc (map str nofile_lines) ([], {}) = Inr []"
  by (simp add: nofile_lines_def rx_eval fs_eval)

lemma twice_references:
  "map (reference (album_fs cue) disc) (file_names (map str twice_lines)) =
     map Inr [mkpath ''/music/album/a.wav'', mkpath ''/music/album/b.wav'',
              mkpath ''/music/album/a.wav'', mkpath ''/music/album/b.wav'']"
  by (simp add: twice_lines_def rx_eval reference_def fs_eval)

lemma alias_files:
  "files_loop (album_fs cue) disc (map str alias_lines) ([], {}) =
     Inr [mkpath ''/music/album/a.wav'', mkpath ''/music/album/../album/a.wav'']"
  by (simp add: alias_lines_def rx_eval fs_eval)

lemma alias_resolve:
  "resolve (album_fs cue) (mkpath ''/music/album/../album/a.wav'') = Inr (mkpath ''/music/album/a.wav'')"
  "resolve (album_fs cue) (mkpath ''/music/album/a.wav'') = Inr (mkpath ''/music/album/a.wav'')"
  by (simp_all add: fs_eval)

lemma padded_loop:
  "artist_album_loop (map str padded_lines) (None, None) = (Some (str ''A''), Some (str ''B''))"
  by (simp add: padded_lines_def rx_eval)

lemma padded_capture:
  "first_capture PERFORMER_RE (before_first_track (map str padded_lines)) = Some (str '' A '')"
  by (simp add: padded_lines_def before_first_track_def is_track_def rx_eval)

lemma nul_tracks: "map is_track (map str nul_lines) = [False, True, True]"
  by (simp add: nul_lines_def is_track_def rx_eval)

lemma nul_count: "count_cue_tracks (album_fs (text_file nul_lines)) disc = 2"
proof -
  have "length (filter is_track (map str nul_lines)) = 2"
    using nul_tracks by (simp add: nul_lines_def)
  then show ?thesis
    by (simp add: album_tracks plain_fixtures)
qed

lemma nul_files: "files_loop (album_fs cue) disc (map str nul_lines) ([], {}) = Inl ValueError"
  by (simp add: nul_lines_def rx_eval fs_eval)

lemma album_exists: "exists (album_fs cue) (mkpath ''/music/album/a.wav'') = Inr True"
  by (simp add: fs_eval)

lemma files_loop_resolve:
  "resolve fs = resolve fs' \<Longrightarrow> files_loop fs cue ls st = files_loop fs' cue ls st"
proof (induction ls arbitrary: st)
  case Nil
  show ?case by (cases st) simp
next
  case (Cons l ls)
  then show ?case
    by (cases st) (auto simp: Let_def split: option.splits sum.splits)
qed

lemma stale_same:
  "read_bytes (stale_fs cue) = read_bytes (album_fs cue)"
  "resolve (stale_fs cue) = resolve (album_fs cue)"
  "exists (stale_fs cue) = exists (album_fs cue)"
  "iterdir (stale_fs cue) = iterdir (album_fs cue)"
  by (simp_all add: stale_fs_def)

lemma stale_parsers:
  "count_cue_tracks (stale_fs cue) p = count_cue_tracks (album_fs cue) p"
  "parse_cue_files (stale_fs cue) p = parse_cue_files (album_fs cue) p"
  using files_loop_resolve [OF stale_same(2), of cue p]
  by (simp_all add: count_cue_tracks_def parse_cue_files_def read_text_guessing_def stale_same
      split: sum.splits)

lemma album_examined:
  "exists (album_fs cue) (mkpath ''/out/one'') = Inr True"
  "exists (album_fs cue) (mkpath ''/out/two'') = Inr True"
  "exists (album_fs cue) (mkpath ''/out/none'') = Inr False"
  "examined (album_fs cue) (mkpath ''/out/one'')"
  "examined (album_fs cue) (mkpath ''/out/two'')"
  "audio_files (album_fs cue) (mkpath ''/out/one'') = [mkpath ''/out/one/01.flac'']"
  "audio_files (album_fs cue) (mkpath ''/out/two'') =
     [mkpath ''/out/two/01.flac'', mkpath ''/out/two/02.WAV'']"
  by (simp_all add: examined_def audio_files_def fs_eval suffix_def lower_str_def lower_def
      isupper_def AUDIO_EXTS_def)

lemma stale_examined:
  "iterdir (stale_fs cue) (mkpath ''/out/two'') =
     Inr [mkpath ''/out/two/01.flac'', mkpath ''/out/two/02.WAV'', mkpath ''/out/two/notes.txt'']"
  "is_file (stale_fs cue) (mkpath ''/out/two/notes.txt'') = Inl OSError"
  "\<not> examined (stale_fs cue) (mkpath ''/out/two'')"
  "audio_files (stale_fs cue) (mkpath ''/out/two'') =
     [mkpath ''/out/two/01.flac'', mkpath ''/out/two/02.WAV'']"
  by (simp_all add: stale_fs_def examined_def audio_files_def fs_eval suffix_def lower_str_def
      lower_def isupper_def AUDIO_EXTS_def)

text \<open>
  The single byte \<open>0xE9\<close> is not UTF-8 and not UTF-16; the loop returns its cp1251
  character, before latin-1 is tried.
\<close>

theorem fallback_unreachable_witness:
  "decode UTF_8_SIG [0xE9] = None \<and> decode_guessing [0xE9] = [0x439]"
proof -
  have "decode UTF_8_SIG [0xE9] = None"
    by (simp add: utf8_sig_def)
  moreover have "try_encodings ENCODINGS [0xE9] = Some [0x439]"
    by (simp add: ENCODINGS_def utf8_sig_def utf16_def utf16_order_def CP1251_HIGH_def)
  ultimately show ?thesis
    using fallback_unreachable [of "[0xE9]"] by auto
qed

text \<open>
  The example of the specification: the artist and the album are those of the lines before
  the first track marker, not the \<open>PERFORMER\<close> line after it.
\<close>

theorem parse_cue_artist_album_first_witness:
  "read_text_guessing (album_fs (text_file example_lines)) disc = Inr (lines_text example_lines) \<and>
   parse_cue_artist_album (album_fs (text_file example_lines)) disc =
     (Some (str ''Test Artist''), Some (str ''Test Album''))"
proof -
  have r: "read_text_guessing (album_fs (text_file example_lines)) disc = Inr (lines_text example_lines)"
    by (rule album_read) (rule plain_fixtures)
  have "takeWhile (\<lambda>line. \<not> is_track line) (map str example_lines) = map str (take 3 example_lines)"
    using example_tracks by (simp add: example_lines_def)
  then have b: "before_first_track (splitlines (lines_text example_lines)) = map str (take 3 example_lines)"
    by (simp add: before_first_track_def splitlines_lines_text plain_fixtures)
  from parse_cue_artist_album_first [OF r] r show ?thesis
    by (simp add: b example_performer example_title strip_def is_space_def str_def)
qed

text \<open>
  Names padded with spaces inside the quotes: the capture of the \<open>PERFORMER\<close> line is
  \<open>" A "\<close>, the artist returned is \<open>"A"\<close>.
\<close>

theorem parse_cue_artist_album_capture_counterexample:
  "read_text_guessing (album_fs (text_file padded_lines)) disc = Inr (lines_text padded_lines) \<and>
   first_capture PERFORMER_RE (before_first_track (splitlines (lines_text padded_lines))) =
     Some (str '' A '') \<and>
   parse_cue_artist_album (album_fs (text_file padded_lines)) disc = (Some (str ''A''), Some (str ''B'')) \<and>
   Some (str ''A'') \<noteq> Some (str '' A '')"
  by (simp add: parse_cue_artist_album_def album_read plain_fixtures splitlines_lines_text
      padded_loop padded_capture)
     (simp add: str_def)

text \<open>
  Four \<open>FILE\<close> lines naming two files: relatively, through \<open>./sub/..\<close>, and by the absolute
  path in its resolved spelling. Two references are returned, in the order first seen.
\<close>

theorem parse_cue_files_dedup_witness:
  "read_text_guessing (album_fs (text_file twice_lines)) disc = Inr (lines_text twice_lines) \<and>
   map (reference (album_fs (text_file twice_lines)) disc)
     (file_names (splitlines (lines_text twice_lines))) =
     map Inr [mkpath ''/music/album/a.wav'', mkpath ''/music/album/b.wav'',
              mkpath ''/music/album/a.wav'', mkpath ''/music/album/b.wav''] \<and>
   parse_cue_files (album_fs (text_file twice_lines)) disc =
     Inr [mkpath ''/music/album/a.wav'', mkpath ''/music/album/b.wav'']"
proof -
  have r: "read_text_guessing (album_fs (text_file twice_lines)) disc = Inr (lines_text twice_lines)"
    by (rule album_read) (rule plain_fixtures)
  have m: "map (reference (album_fs (text_file twice_lines)) disc)
     (file_names (splitlines (lines_text twice_lines))) =
     map Inr [mkpath ''/music/album/a.wav'', mkpath ''/music/album/b.wav'',
              mkpath ''/music/album/a.wav'', mkpath ''/music/album/b.wav'']"
    using twice_references [of "text_file twice_lines"]
    by (simp only: splitlines_lines_text [OF plain_fixtures(6)])
  have d: "path_str (mkpath ''/music/album/a.wav'') \<noteq> path_str (mkpath ''/music/album/b.wav'')"
    by (simp add: fs_eval)
  from parse_cue_files_dedup [THEN conjunct2, rule_format, OF conjI [OF r m]] d
  have "parse_cue_files (album_fs (text_file twice_lines)) disc =
     Inr [mkpath ''/music/album/a.wav'', mkpath ''/music/album/b.wav'']"
    by auto
  with r m show ?thesis by blast
qed

text \<open>
  One file named relatively and by an absolute path through \<open>..\<close>: two references are
  returned, although both resolve to the same path.
\<close>

theorem parse_cue_files_alias_counterexample:
  "parse_cue_files (album_fs (text_file alias_lines)) disc =
     Inr [mkpath ''/music/album/a.wav'', mkpath ''/music/album/../album/a.wav''] \<and>
   mkpath ''/music/album/a.wav'' \<noteq> mkpath ''/music/album/../album/a.wav'' \<and>
   resolve (album_fs (text_file alias_lines)) (mkpath ''/music/album/a.wav'') =
     resolve (album_fs (text_file alias_lines)) (mkpath ''/music/album/../album/a.wav'')"
  by (simp add: album_files plain_fixtures alias_files alias_resolve)
     (simp add: mkpath_def parse_path_def str_def)

text \<open>
  Claim C9 says that none of the three parsing functions lets an exception reach its
  caller. On the cue sheet whose \<open>FILE\<close> name holds a null character the read succeeds,
  \<open>resolve\<close> raises \<open>ValueError\<close> outside the \<open>try\<close> of \<open>parse_cue_files\<close>, and
  \<open>parse_cue_files\<close> raises it, and \<open>should_process\<close> with it.
\<close>

theorem parse_cue_files_propagates:
  "read_text_guessing (album_fs (text_file nul_lines)) disc = Inr (lines_text nul_lines) \<and>
   parse_cue_files (album_fs (text_file nul_lines)) disc = Inl ValueError \<and>
   should_process (album_fs (text_file nul_lines)) disc (mkpath ''/out/none'') False = Inl ValueError"
proof -
  note nul_count
  moreover have "parse_cue_files (album_fs (text_file nul_lines)) disc = Inl ValueError"
    by (simp add: album_files plain_fixtures nul_files)
  ultimately show ?thesis
    by (simp add: should_process_def album_read plain_fixtures)
qed

text \<open>A sheet with one track marker.\<close>

theorem should_process_few_tracks_witness:
  "count_cue_tracks (album_fs (text_file single_lines)) disc \<le> 1 \<and>
   should_process (album_fs (text_file single_lines)) disc (mkpath ''/out/none'') False =
     Inr (False, str ''no tracks or only 1 track'')"
proof -
  have h: "count_cue_tracks (album_fs (text_file single_lines)) disc \<le> 1"
    by (simp add: single_count)
  from should_process_few_tracks [OF h] h show ?thesis by simp
qed

text \<open>
  A data track and an audio track in two files: two references, one track marker, and
  the rejection is that of the track count, not the multi-file one.
\<close>

theorem should_process_track_count_first_counterexample:
  "parse_cue_files (album_fs (text_file mixed_lines)) disc =
     Inr [mkpath ''/music/album/data.bin'', mkpath ''/music/album/a.wav''] \<and>
   mkpath ''/music/album/data.bin'' \<noteq> mkpath ''/music/album/a.wav'' \<and>
   should_process (album_fs (text_file mixed_lines)) disc (mkpath ''/out/none'') False =
     Inr (False, str ''no tracks or only 1 track'') \<and>
   str ''no tracks or only 1 track'' \<noteq> str ''multi-file CUE (already split)''"
proof -
  from mixed_count have "should_process (album_fs (text_file mixed_lines)) disc (mkpath ''/out/none'') False =
     Inr (False, str ''no tracks or only 1 track'')"
    by (simp add: should_process_def)
  moreover have "mkpath ''/music/album/data.bin'' \<noteq> mkpath ''/music/album/a.wav''"
    by (simp add: mkpath_def parse_path_def str_def)
  moreover have "str ''no tracks or only 1 track'' \<noteq> str ''multi-file CUE (already split)''"
    by (simp add: str_def)
  ultimately show ?thesis
    by (simp add: album_files plain_fixtures mixed_files)
qed

text \<open>Two track markers, with one file per track and with no \<open>FILE\<close> line.\<close>

theorem should_process_file_count_witness:
  "1 < count_cue_tracks (album_fs (text_file split_lines)) disc \<and>
   parse_cue_files (album_fs (text_file split_lines)) disc =
     Inr [mkpath ''/music/album/a.wav'', mkpath ''/music/album/b.wav''] \<and>
   should_process (album_fs (text_file split_lines)) disc (mkpath ''/out/none'') False =
     Inr (False, str ''multi-file CUE (already split)'') \<and>
   1 < count_cue_tracks (album_fs (text_file nofile_lines)) disc \<and>
   parse_cue_files (album_fs (text_file nofile_lines)) disc = Inr [] \<and>
   should_process (album_fs (text_file nofile_lines)) disc (mkpath ''/out/none'') False =
     Inr (False, str ''no audio file referenced'')"
proof -
  have c1: "1 < count_cue_tracks (album_fs (text_file split_lines)) disc"
    by (simp add: split_count)
  have f1: "parse_cue_files (album_fs (text_file split_lines)) disc =
     Inr [mkpath ''/music/album/a.wav'', mkpath ''/music/album/b.wav'']"
    by (simp add: album_files plain_fixtures split_files)
  have c2: "1 < count_cue_tracks (album_fs (text_file nofile_lines)) disc"
    by (simp add: nofile_count)
  have f2: "parse_cue_files (album_fs (text_file nofile_lines)) disc = Inr []"
    by (simp add: album_files plain_fixtures nofile_files)
  from should_process_file_count [OF c1 f1, of "mkpath ''/out/none''" False]
       should_process_file_count [OF c2 f2, of "mkpath ''/out/none''" False]
       c1 f1 c2 f2
  show ?thesis by simp
qed

text \<open>
  The example of the specification, with two tracks, against an output directory with two
  audio files and a text file, one with one audio file, one that does not exist, and
  with the force flag.
\<close>

theorem should_process_idempotency_witness:
  "count_cue_tracks (album_fs (text_file example_lines)) disc = 2 \<and>
   parse_cue_files (album_fs (text_file example_lines)) disc = Inr [mkpath ''/music/album/a.wav''] \<and>
   exists (album_fs (text_file example_lines)) (mkpath ''/music/album/a.wav'') = Inr True \<and>
   exists (album_fs (text_file example_lines)) (mkpath ''/out/two'') = Inr True \<and>
   examined (album_fs (text_file example_lines)) (mkpath ''/out/two'') \<and>
   audio_files (album_fs (text_file example_lines)) (mkpath ''/out/two'') =
     [mkpath ''/out/two/01.flac'', mkpath ''/out/two/02.WAV''] \<and>
   should_process (album_fs (text_file example_lines)) disc (mkpath ''/out/two'') False =
     Inr (False, str ''already processed (2/2 tracks)'') \<and>
   audio_files (album_fs (text_file example_lines)) (mkpath ''/out/one'') = [mkpath ''/out/one/01.flac''] \<and>
   should_process (album_fs (text_file example_lines)) disc (mkpath ''/out/one'') False =
     Inr (True, str ''2 tracks'') \<and>
   exists (album_fs (text_file example_lines)) (mkpath ''/out/none'') = Inr False \<and>
   should_process (album_fs (text_file example_lines)) disc (mkpath ''/out/none'') False =
     Inr (True, str ''2 tracks'') \<and>
   should_process (album_fs (text_file example_lines)) disc (mkpath ''/out/two'') True =
     Inr (True, str ''2 tracks'')"
proof -
  let ?fs = "album_fs (text_file example_lines)"
  have c: "count_cue_tracks ?fs disc = 2"
    by (rule example_count)
  have n: "1 < (2::nat)" by simp
  have f: "parse_cue_files ?fs disc = Inr [mkpath ''/music/album/a.wav'']"
    by (simp add: album_files plain_fixtures example_files)
  note t = should_process_idempotency [OF c n f album_exists]
  from t [of "mkpath ''/out/two''", THEN conjunct1]
       t [of "mkpath ''/out/two''", THEN conjunct2, rule_format, OF album_examined(2)]
       t [of "mkpath ''/out/one''", THEN conjunct2, rule_format, OF album_examined(1)]
       t [of "mkpath ''/out/none''", THEN conjunct2, rule_format, OF album_examined(3)]
       c f
  show ?thesis
    by (simp add: album_exists album_examined decimal.simps str_def)
qed

text \<open>
  The output directory holds two audio files, as many as the sheet has tracks, and an
  entry on which \<open>is_file\<close> raises: the count of \<open>count_audio_files\<close> is \<open>0\<close> and the sheet
  is accepted.
\<close>

theorem should_process_unexamined_counterexample:
  "count_cue_tracks (stale_fs (text_file example_lines)) disc = 2 \<and>
   parse_cue_files (stale_fs (text_file example_lines)) disc = Inr [mkpath ''/music/album/a.wav''] \<and>
   exists (stale_fs (text_file example_lines)) (mkpath ''/music/album/a.wav'') = Inr True \<and>
   iterdir (stale_fs (text_file example_lines)) (mkpath ''/out/two'') =
     Inr [mkpath ''/out/two/01.flac'', mkpath ''/out/two/02.WAV'', mkpath ''/out/two/notes.txt''] \<and>
   is_file (stale_fs (text_file example_lines)) (mkpath ''/out/two/notes.txt'') = Inl OSError \<and>
   length (audio_files (stale_fs (text_file example_lines)) (mkpath ''/out/two'')) = 2 \<and>
   should_process (stale_fs (text_file example_lines)) disc (mkpath ''/out/two'') False =
     Inr (True, str ''2 tracks'')"
proof -
  let ?fs = "stale_fs (text_file example_lines)"
  have c: "count_cue_tracks ?fs disc = 2"
    by (simp add: stale_parsers example_count)
  have f: "parse_cue_files ?fs disc = Inr [mkpath ''/music/album/a.wav'']"
    by (simp add: stale_parsers album_files plain_fixtures example_files)
  have e: "exists ?fs (mkpath ''/music/album/a.wav'') = Inr True"
    by (simp add: stale_same album_exists)
  have d: "exists ?fs (mkpath ''/out/two'') = Inr True"
    by (simp add: stale_same album_examined)
  have "should_process ?fs disc (mkpath ''/out/two'') False = Inr (True, str ''2 tracks'')"
    using c f e count_audio_files_char [OF d]
    by (simp add: should_process_def find_audio_file_def stale_examined decimal.simps str_def)
  with c f e show ?thesis
    by (simp add: stale_examined)
qed

end
